theory Spec2Isabelle
  imports Complex_Main
begin

section \<open>Gesture whiteboard: data model\<close>

text \<open>
  The development embeds three programs of the repository:
  \<^item> \<^verbatim>\<open>adaptive_microgesture/app.py\<close>, class \<^verbatim>\<open>WhiteboardApp\<close> (state record \<open>app\<close>);
  \<^item> \<^verbatim>\<open>whiteboard_app.py\<close>, class \<^verbatim>\<open>GestureWhiteboard\<close> (state record \<open>gw\<close>);
  \<^item> \<^verbatim>\<open>scripts/gesture_backend.py\<close>, class \<^verbatim>\<open>GestureRecognitionBackend\<close>
    (state record \<open>backend\<close>).

  External collaborators are parameters, collected in the record \<open>ext\<close>: the raster
  type \<open>'c\<close> with the blank canvas, the OpenCV drawing primitives, the TFLite classifier
  (set tensor, invoke, argmax and its probability) and the clock formatting used for
  file names. Clock readings (\<^verbatim>\<open>time.time()\<close>) are an argument \<open>now\<close> of the
  functions that read the clock; times are real numbers.
\<close>

type_synonym colour = "nat \<times> nat \<times> nat"
type_synonym point = "int \<times> int"
type_synonym landmark = "real \<times> real \<times> real"
type_synonym snapshot = "landmark list"

record 'c ext =
  blank_canvas :: 'c
  cv2_line :: "'c \<Rightarrow> point \<Rightarrow> point \<Rightarrow> colour \<Rightarrow> int \<Rightarrow> 'c"
  cv2_rectangle :: "'c \<Rightarrow> point \<Rightarrow> point \<Rightarrow> colour \<Rightarrow> int \<Rightarrow> 'c"
  cv2_circle :: "'c \<Rightarrow> point \<Rightarrow> int \<Rightarrow> colour \<Rightarrow> int \<Rightarrow> 'c"
  cv2_arrowedLine :: "'c \<Rightarrow> point \<Rightarrow> point \<Rightarrow> colour \<Rightarrow> int \<Rightarrow> 'c"
  classifier :: "snapshot list \<Rightarrow> nat \<times> real"
  strftime :: "real \<Rightarrow> string"

subsection \<open>Bounded deques\<close>

text \<open>
  \<^verbatim>\<open>collections.deque(maxlen=n)\<close> as a list, oldest entry first. \<^verbatim>\<open>append\<close> on a
  full deque discards the entry at the left end; with \<open>maxlen = 0\<close> nothing is stored.
\<close>

definition dq_append :: "nat \<Rightarrow> 'a \<Rightarrow> 'a list \<Rightarrow> 'a list" where
  "dq_append maxlen x d =
     (if maxlen = 0 then []
      else if length d \<ge> maxlen then drop (Suc (length d) - maxlen) (d @ [x])
      else d @ [x])"

definition GESTURE_MAP :: "nat \<Rightarrow> string option" where
  "GESTURE_MAP = map_of
     [(0, ''write_start''), (1, ''write_stop''), (2, ''erase''), (3, ''zoom_in''),
      (4, ''zoom_out''), (5, ''draw_shapes''), (6, ''undo''), (7, ''redo''),
      (8, ''change_color''), (9, ''save''), (10, ''pan''), (11, ''clear_all'')]"

subsection \<open>WhiteboardApp (adaptive\_microgesture/app.py)\<close>

record 'c app =
  drawing :: bool
  erasing :: bool
  drawing_color :: colour
  prev_x :: int
  prev_y :: int
  canvas :: 'c
  temp_canvas :: 'c
  history :: "'c list"
  redo_stack :: "'c list"
  zoom_factor :: real
  offset_x :: real
  offset_y :: real
  pan_mode :: bool
  prev_pan_x :: int
  prev_pan_y :: int
  shape_drawing :: bool
  shape_start_point :: "point option"
  current_shape :: string
  frame_buffer :: "snapshot list"
  last_gesture_time :: real
  last_gesture :: "string option"
  status_message :: string
  status_expire :: real
  saved_files :: "(string \<times> 'c) list"
  interpreter_calls :: "snapshot list list"

text \<open>
  \<open>saved_files\<close> records the files written by \<^verbatim>\<open>cv2.imwrite\<close>. \<open>interpreter_calls\<close>
  records the input tensors on which the module-level TFLite interpreter has been
  invoked (\<^verbatim>\<open>interpreter.set_tensor\<close> followed by \<^verbatim>\<open>interpreter.invoke()\<close>), oldest
  first. The attributes \<^verbatim>\<open>shapes\<close> and \<^verbatim>\<open>shape_index\<close> are used by \<^verbatim>\<open>change_shape\<close>
  only, which nothing calls, and \<^verbatim>\<open>ui_colors\<close> by the rendering only; they are left out.
\<close>

definition eraser_color :: colour where "eraser_color = (255, 255, 255)"
definition line_thickness :: int where "line_thickness = 5"
definition eraser_thickness :: int where "eraser_thickness = 25"
definition canvas_width :: int where "canvas_width = 1200"
definition canvas_height :: int where "canvas_height = 800"
definition history_maxlen :: nat where "history_maxlen = 50"
definition sequence_length :: nat where "sequence_length = 4"
definition gesture_cooldown :: real where "gesture_cooldown = 1.0"

text \<open>\<^verbatim>\<open>save_history\<close>: append a copy of the canvas, clear the redo stack.\<close>

definition save_history :: "'c app \<Rightarrow> 'c app" where
  "save_history s =
     s\<lparr>history := dq_append history_maxlen (canvas s) (history s), redo_stack := []\<rparr>"

text \<open>
  \<^verbatim>\<open>__init__\<close>. \<^verbatim>\<open>prev_x\<close>, \<^verbatim>\<open>prev_y\<close> are created by \<^verbatim>\<open>start_drawing\<close> only and are
  read only while \<^verbatim>\<open>drawing\<close> is set; they start at 0 here. \<open>now\<close> is the clock reading
  stored in \<^verbatim>\<open>last_gesture_time\<close>.
\<close>

definition app_init :: "'c ext \<Rightarrow> real \<Rightarrow> 'c app" where
  "app_init E now = save_history
     \<lparr>drawing = False, erasing = False, drawing_color = (0, 0, 255),
      prev_x = 0, prev_y = 0,
      canvas = blank_canvas E, temp_canvas = blank_canvas E,
      history = [], redo_stack = [],
      zoom_factor = 1.0, offset_x = 0, offset_y = 0,
      pan_mode = False, prev_pan_x = 0, prev_pan_y = 0,
      shape_drawing = False, shape_start_point = None, current_shape = ''rectangle'',
      frame_buffer = [],
      last_gesture_time = now, last_gesture = None,
      status_message = '''', status_expire = 0,
      saved_files = [], interpreter_calls = []\<rparr>"

definition status :: "string \<Rightarrow> real \<Rightarrow> 'c app \<Rightarrow> 'c app" where
  "status message now s = s\<lparr>status_message := message, status_expire := now + 3.0\<rparr>"

text \<open>
  \<^verbatim>\<open>undo\<close> and \<^verbatim>\<open>redo\<close>. The pops are guarded by the source's length tests, so
  \<open>last\<close> and \<open>butlast\<close> are applied to non-empty deques only.
\<close>

definition undo :: "real \<Rightarrow> 'c app \<Rightarrow> 'c app" where
  "undo now s =
     (if length (history s) > 1 then
        let popped = last (history s);
            h = butlast (history s);
            s1 = s\<lparr>history := h, redo_stack := dq_append history_maxlen popped (redo_stack s)\<rparr>;
            s2 = s1\<lparr>canvas := last h\<rparr>;
            s3 = s2\<lparr>temp_canvas := canvas s2\<rparr>
        in status ''Undo performed'' now s3
      else s)"

definition redo :: "real \<Rightarrow> 'c app \<Rightarrow> 'c app" where
  "redo now s =
     (if redo_stack s \<noteq> [] then
        let s1 = s\<lparr>canvas := last (redo_stack s), redo_stack := butlast (redo_stack s)\<rparr>;
            s2 = s1\<lparr>history := dq_append history_maxlen (canvas s1) (history s1)\<rparr>;
            s3 = s2\<lparr>temp_canvas := canvas s2\<rparr>
        in status ''Redo performed'' now s3
      else s)"

definition clear_canvas :: "'c ext \<Rightarrow> real \<Rightarrow> 'c app \<Rightarrow> 'c app" where
  "clear_canvas E now s =
     status ''Canvas cleared'' now (save_history (s\<lparr>canvas := blank_canvas E\<rparr>))"

text \<open>
  \<^verbatim>\<open>colors.index(self.drawing_color) if self.drawing_color in colors else 0\<close>:
  the position of the first occurrence, 0 when there is none.
\<close>

fun index_or_zero :: "'a list \<Rightarrow> 'a \<Rightarrow> nat" where
  "index_or_zero [] y = 0"
| "index_or_zero (x # xs) y = (if x = y then 0 else if y \<in> set xs then Suc (index_or_zero xs y) else 0)"

definition colors :: "colour list" where
  "colors = [(0, 0, 255), (0, 255, 0), (255, 0, 0), (0, 255, 255), (255, 0, 255), (255, 255, 0)]"

definition color_names :: "string list" where
  "color_names = [''Red'', ''Green'', ''Blue'', ''Yellow'', ''Magenta'', ''Cyan'']"

definition change_color :: "real \<Rightarrow> 'c app \<Rightarrow> 'c app" where
  "change_color now s =
     (let current_idx = index_or_zero colors (drawing_color s);
          next_idx = (current_idx + 1) mod length colors
      in status (''Color changed: '' @ color_names ! next_idx) now
           (s\<lparr>drawing_color := colors ! next_idx\<rparr>))"

text \<open>Decimal printing for the status line; \<^verbatim>\<open>int(...)\<close> truncates towards zero.\<close>

definition py_int :: "real \<Rightarrow> int" where
  "py_int r = (if r \<ge> 0 then \<lfloor>r\<rfloor> else \<lceil>r\<rceil>)"

fun show_nat :: "nat \<Rightarrow> string" where
  "show_nat n =
     (if n < 10 then [char_of (48 + n)]
      else show_nat (n div 10) @ [char_of (48 + n mod 10)])"

definition show_int :: "int \<Rightarrow> string" where
  "show_int i = (if i < 0 then CHR ''-'' # show_nat (nat (- i)) else show_nat (nat i))"

definition zoom :: "string \<Rightarrow> real \<Rightarrow> 'c app \<Rightarrow> 'c app" where
  "zoom direction now s =
     (let s1 = (if direction = ''in''
                then s\<lparr>zoom_factor := min 3.0 (zoom_factor s + 0.2)\<rparr>
                else s\<lparr>zoom_factor := max 1.0 (zoom_factor s - 0.2)\<rparr>)
      in status (''Zoom: '' @ show_int (py_int (zoom_factor s1 * 100)) @ ''%'') now s1)"

definition toggle_erasing :: "real \<Rightarrow> 'c app \<Rightarrow> 'c app" where
  "toggle_erasing now s =
     (let s1 = s\<lparr>erasing := \<not> erasing s\<rparr>
      in if erasing s1 then status ''Eraser activated'' now s1
         else status ''Drawing mode'' now s1)"

definition save_canvas :: "'c ext \<Rightarrow> real \<Rightarrow> 'c app \<Rightarrow> 'c app" where
  "save_canvas E now s =
     (let filename = ''whiteboard_'' @ strftime E now @ ''.png''
      in status (''Saved as '' @ filename) now
           (s\<lparr>saved_files := saved_files s @ [(filename, canvas s)]\<rparr>))"

definition start_pan :: "int \<Rightarrow> int \<Rightarrow> real \<Rightarrow> 'c app \<Rightarrow> 'c app" where
  "start_pan x y now s =
     status ''Pan mode activated'' now (s\<lparr>pan_mode := True, prev_pan_x := x, prev_pan_y := y\<rparr>)"

definition pan :: "int \<Rightarrow> int \<Rightarrow> 'c app \<Rightarrow> 'c app" where
  "pan x y s =
     (if pan_mode s then
        let dx = (x - prev_pan_x s) * 2;
            dy = (y - prev_pan_y s) * 2;
            s1 = s\<lparr>offset_x := offset_x s + of_int dx, offset_y := offset_y s + of_int dy\<rparr>;
            s2 = s1\<lparr>offset_x := max (- of_int canvas_width * (zoom_factor s1 - 1))
                                    (min 0 (offset_x s1))\<rparr>;
            s3 = s2\<lparr>offset_y := max (- of_int canvas_height * (zoom_factor s2 - 1))
                                    (min 0 (offset_y s2))\<rparr>
        in s3\<lparr>prev_pan_x := x, prev_pan_y := y\<rparr>
      else s)"

definition end_pan :: "real \<Rightarrow> 'c app \<Rightarrow> 'c app" where
  "end_pan now s = status ''Pan mode deactivated'' now (s\<lparr>pan_mode := False\<rparr>)"

definition start_drawing :: "int \<Rightarrow> int \<Rightarrow> 'c app \<Rightarrow> 'c app" where
  "start_drawing x y s =
     (let s1 = s\<lparr>drawing := True, prev_x := x, prev_y := y\<rparr>
      in if shape_drawing s1 then s1\<lparr>shape_start_point := Some (x, y)\<rparr> else s1)"

text \<open>
  \<^verbatim>\<open>draw\<close>: \<^verbatim>\<open>cv2.line\<close> writes into the target array in place; the target is the
  scratch canvas in shape mode and the committed canvas otherwise. The two arrays are
  never aliased (every assignment in the source stores a \<^verbatim>\<open>.copy()\<close>).
\<close>

definition draw :: "'c ext \<Rightarrow> int \<Rightarrow> int \<Rightarrow> 'c app \<Rightarrow> 'c app" where
  "draw E x y s =
     (if drawing s then
        let col = (if erasing s then eraser_color else drawing_color s);
            th = (if erasing s then eraser_thickness else line_thickness);
            s1 = (if shape_drawing s
                  then s\<lparr>temp_canvas := cv2_line E (temp_canvas s) (prev_x s, prev_y s) (x, y) col th\<rparr>
                  else s\<lparr>canvas := cv2_line E (canvas s) (prev_x s, prev_y s) (x, y) col th\<rparr>)
        in s1\<lparr>prev_x := x, prev_y := y\<rparr>
      else s)"

definition end_drawing :: "'c app \<Rightarrow> 'c app" where
  "end_drawing s =
     (let s1 = (if drawing s then
                  let a = s\<lparr>drawing := False\<rparr>
                  in if shape_drawing a then
                       (save_history (a\<lparr>canvas := temp_canvas a\<rparr>))\<lparr>shape_drawing := False\<rparr>
                     else if \<not> erasing a then save_history a
                     else a
                else s)
      in s1\<lparr>temp_canvas := canvas s1, shape_start_point := None\<rparr>)"

text \<open>
  \<^verbatim>\<open>draw_shape\<close>. The circle radius is
  \<^verbatim>\<open>int(np.sqrt((end_x - start_x)**2 + (end_y - start_y)**2) // 2)\<close>, the floor of half
  the square root of a non-negative integer. \<open>floor_sqrt n\<close> is the integer square
  root, found by searching downwards from \<open>n\<close>; halving it gives the same radius
  (lemma \<open>radius_floor_sqrt\<close>).
\<close>

primrec sqrt_search :: "nat \<Rightarrow> nat \<Rightarrow> nat" where
  "sqrt_search n 0 = 0"
| "sqrt_search n (Suc k) = (if Suc k * Suc k \<le> n then Suc k else sqrt_search n k)"

definition floor_sqrt :: "nat \<Rightarrow> nat" where
  "floor_sqrt n = sqrt_search n n"

definition draw_shape :: "'c ext \<Rightarrow> int \<Rightarrow> int \<Rightarrow> 'c app \<Rightarrow> 'c app" where
  "draw_shape E end_x end_y s =
     (case shape_start_point s of
        None \<Rightarrow> s
      | Some (start_x, start_y) \<Rightarrow>
          let t = canvas s;
              color = (if erasing s then eraser_color else drawing_color s);
              thickness = (if erasing s then eraser_thickness else line_thickness)
          in if current_shape s = ''rectangle'' then
               s\<lparr>temp_canvas := cv2_rectangle E t (start_x, start_y) (end_x, end_y) color thickness\<rparr>
             else if current_shape s = ''circle'' then
               let center_x = (start_x + end_x) div 2;
                   center_y = (start_y + end_y) div 2;
                   radius = int (floor_sqrt (nat ((end_x - start_x)\<^sup>2 + (end_y - start_y)\<^sup>2))) div 2
               in s\<lparr>temp_canvas := cv2_circle E t (center_x, center_y) radius color thickness\<rparr>
             else if current_shape s = ''line'' then
               s\<lparr>temp_canvas := cv2_line E t (start_x, start_y) (end_x, end_y) color thickness\<rparr>
             else if current_shape s = ''arrow'' then
               s\<lparr>temp_canvas := cv2_arrowedLine E t (start_x, start_y) (end_x, end_y) color thickness\<rparr>
             else s\<lparr>temp_canvas := t\<rparr>)"

text \<open>
  \<^verbatim>\<open>process_landmarks\<close> keeps the 21 points as they are (the reshape to
  \<open>(1, 1, 21, 3)\<close> and the cast to float32 are not modelled) and returns \<^verbatim>\<open>None\<close> for
  any other point count.
\<close>

definition process_landmarks :: "landmark list \<Rightarrow> snapshot option" where
  "process_landmarks landmarks = (if length landmarks \<noteq> 21 then None else Some landmarks)"

text \<open>
  \<^verbatim>\<open>predict_gesture\<close>: \<open>input_data\<close> is the concatenation of the buffered snapshots
  along axis 1, so \<^verbatim>\<open>input_data.shape[1]\<close> is the number of snapshots.
\<close>

definition predict_gesture ::
  "'c ext \<Rightarrow> snapshot list \<Rightarrow> 'c app \<Rightarrow> (nat option \<times> real) \<times> 'c app" where
  "predict_gesture E input_data s =
     (if length input_data \<noteq> sequence_length then ((None, 0.0), s)
      else let (predicted_class, confidence) = classifier E input_data
           in ((Some predicted_class, confidence),
               s\<lparr>interpreter_calls := interpreter_calls s @ [input_data]\<rparr>))"

text \<open>The \<^verbatim>\<open>if\<close>/\<^verbatim>\<open>elif\<close> chain of \<^verbatim>\<open>handle_gesture\<close> (lines 284 to 309).\<close>

definition dispatch :: "'c ext \<Rightarrow> real \<Rightarrow> string \<Rightarrow> 'c app \<Rightarrow> 'c app" where
  "dispatch E now gesture_name s =
     (if gesture_name = ''write_start'' then status ''Drawing started'' now s
      else if gesture_name = ''write_stop'' then status ''Drawing stopped'' now (end_drawing s)
      else if gesture_name = ''erase'' then toggle_erasing now s
      else if gesture_name = ''zoom_in'' then zoom ''in'' now s
      else if gesture_name = ''zoom_out'' then zoom ''out'' now s
      else if gesture_name = ''draw_shapes'' then
        status (''Shape mode: '' @ current_shape s) now (s\<lparr>shape_drawing := True\<rparr>)
      else if gesture_name = ''undo'' then undo now s
      else if gesture_name = ''redo'' then redo now s
      else if gesture_name = ''change_color'' then change_color now s
      else if gesture_name = ''save'' then save_canvas E now s
      else if gesture_name = ''pan'' then status ''Pan mode - move hand to pan'' now s
      else if gesture_name = ''clear_all'' then clear_canvas E now s
      else s)"

definition gesture_name_of :: "nat option \<Rightarrow> string" where
  "gesture_name_of gesture_id =
     (case gesture_id of
        None \<Rightarrow> ''Unknown''
      | Some g \<Rightarrow> (case GESTURE_MAP g of Some n \<Rightarrow> n | None \<Rightarrow> ''Unknown''))"

definition handle_gesture :: "'c ext \<Rightarrow> real \<Rightarrow> nat option \<Rightarrow> 'c app \<Rightarrow> 'c app" where
  "handle_gesture E current_time gesture_id s =
     (if current_time - last_gesture_time s < gesture_cooldown then s
      else let gesture_name = gesture_name_of gesture_id
           in if Some gesture_name \<noteq> last_gesture s then
                dispatch E current_time gesture_name
                  (s\<lparr>last_gesture := Some gesture_name, last_gesture_time := current_time\<rparr>)
              else s)"

definition get_index_finger_position :: "landmark list \<Rightarrow> point option" where
  "get_index_finger_position landmarks =
     (if landmarks \<noteq> [] \<and> length landmarks \<ge> 9 then
        (case landmarks ! 8 of (x, y, z) \<Rightarrow>
           Some (py_int (x * of_int canvas_width), py_int (y * of_int canvas_height)))
      else None)"

subsection \<open>One iteration of \<^verbatim>\<open>WhiteboardApp.run\<close>\<close>

text \<open>
  A camera frame as the loop sees it: the landmarks of the tracked hand
  (\<^verbatim>\<open>max_num_hands=1\<close>; \<open>None\<close> when no hand is tracked), the key code returned by
  \<^verbatim>\<open>cv2.waitKey(1) & 0xFF\<close> (255 when no key is pressed), and the clock reading of
  this iteration (one reading per iteration). \<open>hand\<close> is the list the loop builds from
  the detector's result with \<^verbatim>\<open>range(21)\<close>; lists of any length are admitted here, so
  that the length test of \<^verbatim>\<open>process_landmarks\<close> is exercised.
\<close>

record frame =
  hand :: "landmark list option"
  key :: nat
  clock :: real

definition ord :: "char \<Rightarrow> nat" where
  "ord c = of_char c"

text \<open>Lines 415 to 424: buffer the snapshot, classify a full window, gate and debounce.\<close>

definition recognise :: "'c ext \<Rightarrow> real \<Rightarrow> landmark list \<Rightarrow> 'c app \<Rightarrow> 'c app" where
  "recognise E now landmarks s =
     (case process_landmarks landmarks of
        None \<Rightarrow> s
      | Some processed_landmarks \<Rightarrow>
          let s1 = s\<lparr>frame_buffer := dq_append sequence_length processed_landmarks (frame_buffer s)\<rparr>
          in if length (frame_buffer s1) = sequence_length then
               let input_data = frame_buffer s1;
                   ((gesture_id, confidence), s2) = predict_gesture E input_data s1
               in if confidence > 0.7 then handle_gesture E now gesture_id s2 else s2
             else s1)"

text \<open>Lines 429 to 436.\<close>

definition pan_stage :: "real \<Rightarrow> point option \<Rightarrow> 'c app \<Rightarrow> 'c app" where
  "pan_stage now finger_pos s =
     (case finger_pos of
        Some (x, y) \<Rightarrow>
          if last_gesture s = Some ''pan'' then
            (if pan_mode s then pan x y s else start_pan x y now s)
          else if pan_mode s then end_pan now s
          else s
      | None \<Rightarrow> if pan_mode s then end_pan now s else s)"

text \<open>Lines 438 to 451.\<close>

definition draw_stage :: "'c ext \<Rightarrow> point option \<Rightarrow> 'c app \<Rightarrow> 'c app" where
  "draw_stage E finger_pos s =
     (case finger_pos of
        None \<Rightarrow> s
      | Some (x, y) \<Rightarrow>
          let s1 = (if last_gesture s = Some ''write_start'' \<and> \<not> drawing s
                    then start_drawing x y s else s)
          in if drawing s1 then
               (if shape_drawing s1 \<and> shape_start_point s1 \<noteq> None
                then draw_shape E x y s1 else draw E x y s1)
             else s1)"

text \<open>Lines 477 to 494; the key \<^verbatim>\<open>q\<close> leaves the loop and is handled in \<open>run\<close>.\<close>

definition key_stage :: "'c ext \<Rightarrow> real \<Rightarrow> nat \<Rightarrow> 'c app \<Rightarrow> 'c app" where
  "key_stage E now k s =
     (if k = ord CHR ''q'' then s
      else if k = ord CHR ''c'' then clear_canvas E now s
      else if k = ord CHR ''u'' then undo now s
      else if k = ord CHR ''r'' then redo now s
      else if k = ord CHR ''s'' then save_canvas E now s
      else if k = ord CHR ''e'' then toggle_erasing now s
      else if k = ord CHR ''z'' then zoom ''in'' now s
      else if k = ord CHR ''x'' then zoom ''out'' now s
      else s)"

definition frame_step :: "'c ext \<Rightarrow> frame \<Rightarrow> 'c app \<Rightarrow> 'c app" where
  "frame_step E f s =
     (let s1 = (case hand f of None \<Rightarrow> s | Some landmarks \<Rightarrow> recognise E (clock f) landmarks s);
          finger_pos = (case hand f of
                          None \<Rightarrow> None
                        | Some landmarks \<Rightarrow>
                            if landmarks \<noteq> [] then get_index_finger_position landmarks else None);
          s2 = pan_stage (clock f) finger_pos s1;
          s3 = draw_stage E finger_pos s2
      in key_stage E (clock f) (key f) s3)"

text \<open>
  The loop over the frames the camera delivers; it ends when the camera stops
  delivering frames or after an iteration that read the key \<^verbatim>\<open>q\<close>.
\<close>

fun run :: "'c ext \<Rightarrow> frame list \<Rightarrow> 'c app \<Rightarrow> 'c app" where
  "run E [] s = s"
| "run E (f # fs) s =
     (let s' = frame_step E f s in if key f = ord CHR ''q'' then s' else run E fs s')"

subsection \<open>GestureWhiteboard (whiteboard\_app.py)\<close>

text \<open>
  The gesture path of the simplified application: the state touched by
  \<^verbatim>\<open>handle_gesture\<close> and by the recognition block of \<^verbatim>\<open>run\<close> (lines 223 to 242).
  The history is an unbounded list with a cursor \<open>history_index\<close>, \<open>-1\<close> when empty.
\<close>

record 'c gw =
  gw_canvas :: 'c
  gw_drawing :: bool
  gw_erasing :: bool
  current_colour_idx :: nat
  gw_frame_buffer :: "snapshot list"
  gw_last_gesture :: "string option"
  gw_last_gesture_time :: real
  gw_history :: "'c list"
  history_index :: int
  gw_saved_files :: "(string \<times> 'c) list"

definition COLOURS :: "colour list" where
  "COLOURS = [(0, 0, 255), (0, 255, 0), (255, 0, 0), (0, 255, 255), (255, 0, 255),
              (255, 255, 0), (0, 0, 0)]"

definition gw_gesture_cooldown :: real where "gw_gesture_cooldown = 1.0"

definition gw_init :: "'c ext \<Rightarrow> 'c gw" where
  "gw_init E =
     \<lparr>gw_canvas = blank_canvas E, gw_drawing = False, gw_erasing = False,
      current_colour_idx = 0, gw_frame_buffer = [],
      gw_last_gesture = None, gw_last_gesture_time = 0.0,
      gw_history = [], history_index = - 1, gw_saved_files = []\<rparr>"

text \<open>\<^verbatim>\<open>xs[:k]\<close>; a negative \<open>k\<close> counts from the end.\<close>

definition py_slice_to :: "int \<Rightarrow> 'a list \<Rightarrow> 'a list" where
  "py_slice_to k xs = (if k \<ge> 0 then take (nat k) xs else take (length xs - nat (- k)) xs)"

definition gw_handle_gesture :: "'c ext \<Rightarrow> real \<Rightarrow> string \<Rightarrow> 'c gw \<Rightarrow> 'c gw" where
  "gw_handle_gesture E now gesture_name s =
     (if gesture_name = ''write_start'' then s\<lparr>gw_drawing := True\<rparr>
      else if gesture_name = ''write_stop'' then
        (let s1 = (if gw_drawing s then
                     let h = py_slice_to (history_index s + 1) (gw_history s) @ [gw_canvas s]
                     in s\<lparr>gw_history := h, history_index := int (length h) - 1\<rparr>
                   else s)
         in s1\<lparr>gw_drawing := False\<rparr>)
      else if gesture_name = ''erase'' then s\<lparr>gw_erasing := \<not> gw_erasing s\<rparr>
      else if gesture_name = ''change_color'' then
        s\<lparr>current_colour_idx := (current_colour_idx s + 1) mod length COLOURS\<rparr>
      else if gesture_name = ''save'' then
        s\<lparr>gw_saved_files := gw_saved_files s
             @ [(''whiteboard_'' @ show_int (py_int now) @ ''.png'', gw_canvas s)]\<rparr>
      else if gesture_name = ''clear_all'' then s\<lparr>gw_canvas := blank_canvas E\<rparr>
      else if gesture_name = ''undo'' then
        (if history_index s > 0 then
           let s1 = s\<lparr>history_index := history_index s - 1\<rparr>
           in s1\<lparr>gw_canvas := gw_history s1 ! nat (history_index s1)\<rparr>
         else s)
      else if gesture_name = ''redo'' then
        (if history_index s < int (length (gw_history s)) - 1 then
           let s1 = s\<lparr>history_index := history_index s + 1\<rparr>
           in s1\<lparr>gw_canvas := gw_history s1 ! nat (history_index s1)\<rparr>
         else s)
      else s)"

definition gw_predict_gesture :: "'c ext \<Rightarrow> snapshot list \<Rightarrow> nat option \<times> real" where
  "gw_predict_gesture E input_data =
     (if length input_data \<noteq> sequence_length then (None, 0.0)
      else let (predicted_class, confidence) = classifier E input_data
           in (Some predicted_class, confidence))"

text \<open>Lines 233 to 242: the cooldown test of the simplified application.\<close>

definition gw_debounce :: "'c ext \<Rightarrow> real \<Rightarrow> string \<Rightarrow> 'c gw \<Rightarrow> 'c gw" where
  "gw_debounce E current_time gesture_name s =
     (if Some gesture_name \<noteq> gw_last_gesture s
         \<or> current_time - gw_last_gesture_time s > gw_gesture_cooldown
      then gw_handle_gesture E current_time gesture_name
             (s\<lparr>gw_last_gesture := Some gesture_name, gw_last_gesture_time := current_time\<rparr>)
      else s)"

text \<open>\<^verbatim>\<open>self.GESTURE_MAP.get(predicted_class, "unknown")\<close>.\<close>

definition gw_name_of :: "nat \<Rightarrow> string" where
  "gw_name_of predicted_class =
     (case GESTURE_MAP predicted_class of Some n \<Rightarrow> n | None \<Rightarrow> ''unknown'')"

text \<open>
  Lines 224 to 242. Here the window test is outside the test of \<open>processed\<close>, so a
  rejected snapshot still classifies a window that is already full.
\<close>

definition gw_recognise :: "'c ext \<Rightarrow> real \<Rightarrow> landmark list \<Rightarrow> 'c gw \<Rightarrow> 'c gw" where
  "gw_recognise E now landmarks s =
     (let s1 = (case process_landmarks landmarks of
                  None \<Rightarrow> s
                | Some processed \<Rightarrow>
                    s\<lparr>gw_frame_buffer := dq_append sequence_length processed (gw_frame_buffer s)\<rparr>)
      in if length (gw_frame_buffer s1) = sequence_length then
           (case gw_predict_gesture E (gw_frame_buffer s1) of
              (Some predicted_class, confidence) \<Rightarrow>
                if confidence > 0.7 then
                  gw_debounce E now (gw_name_of predicted_class) s1
                else s1
            | (None, confidence) \<Rightarrow> s1)
         else s1)"

subsection \<open>GestureRecognitionBackend (scripts/gesture\_backend.py)\<close>

record backend =
  be_frame_buffer :: "snapshot list"
  current_gesture :: "string option"
  gesture_confidence :: real
  be_last_gesture_time :: real

record gesture_data =
  gesture :: string
  confidence :: real
  coordinates :: "real \<times> real"
  timestamp :: real

definition be_gesture_cooldown :: real where "be_gesture_cooldown = 0.5"

definition be_init :: backend where
  "be_init = \<lparr>be_frame_buffer = [], current_gesture = None, gesture_confidence = 0.0,
              be_last_gesture_time = 0\<rparr>"

text \<open>
  \<^verbatim>\<open>predict_gesture\<close> of the service; the classifier is total here, so the
  \<^verbatim>\<open>except\<close> branch (which returns \<^verbatim>\<open>None, 0.0\<close> as well) is not taken.
\<close>

definition be_predict_gesture :: "'c ext \<Rightarrow> snapshot list \<Rightarrow> nat option \<times> real" where
  "be_predict_gesture E input_data =
     (if length input_data \<noteq> sequence_length then (None, 0.0)
      else let (predicted_class, confidence) = classifier E input_data
           in (Some predicted_class, confidence))"

text \<open>Lines 153 to 171: the cooldown test of the service; it does not look at the name.\<close>

definition be_debounce ::
  "real \<Rightarrow> string \<Rightarrow> real \<Rightarrow> landmark \<Rightarrow> backend \<Rightarrow> backend \<times> gesture_data option" where
  "be_debounce current_time gesture_name conf index_tip s =
     (if current_time - be_last_gesture_time s > be_gesture_cooldown then
        (s\<lparr>current_gesture := Some gesture_name, gesture_confidence := conf,
            be_last_gesture_time := current_time\<rparr>,
         Some \<lparr>gesture = gesture_name, confidence = conf,
               coordinates = (fst index_tip, fst (snd index_tip)),
               timestamp = current_time\<rparr>)
      else (s, None))"

text \<open>
  \<^verbatim>\<open>process_frame\<close> for a frame with a tracked hand (lines 139 to 171). The fingertip
  \<^verbatim>\<open>hand_landmarks.landmark[8]\<close> is read only after \<open>process_landmarks\<close> accepted the
  21 points. The name is \<^verbatim>\<open>self.gesture_map.get(predicted_class, "Unknown")\<close>, the
  same lookup as in \<^verbatim>\<open>WhiteboardApp\<close>.
\<close>

definition process_frame ::
  "'c ext \<Rightarrow> real \<Rightarrow> landmark list \<Rightarrow> backend \<Rightarrow> backend \<times> gesture_data option" where
  "process_frame E now landmarks s =
     (case process_landmarks landmarks of
        None \<Rightarrow> (s, None)
      | Some processed_landmarks \<Rightarrow>
          let s1 = s\<lparr>be_frame_buffer := dq_append 4 processed_landmarks (be_frame_buffer s)\<rparr>
          in if length (be_frame_buffer s1) = sequence_length then
               (case be_predict_gesture E (be_frame_buffer s1) of
                  (Some predicted_class, conf) \<Rightarrow>
                    if conf > 0.7 then
                      be_debounce now (gesture_name_of (Some predicted_class))
                        conf (landmarks ! 8) s1
                    else (s1, None)
                | (None, conf) \<Rightarrow> (s1, None))
             else (s1, None))"

section \<open>Instances for concrete runs\<close>

text \<open>
  A committed mutation: the canvas is replaced and \<^verbatim>\<open>save_history\<close> is called, as
  \<^verbatim>\<open>end_drawing\<close> and \<^verbatim>\<open>clear_canvas\<close> do.
\<close>

definition commit :: "'c \<Rightarrow> 'c app \<Rightarrow> 'c app" where
  "commit c s = save_history (s\<lparr>canvas := c\<rparr>)"

text \<open>
  A display-list instance of the external collaborators, used for runs on concrete
  inputs: a canvas is the list of primitives drawn on the blank canvas, and the
  classifier reads the class and its probability off the first landmark of the newest
  snapshot of the window.
\<close>

datatype prim =
    Line point point colour int
  | Rectangle point point colour int
  | Circle point int colour int
  | ArrowedLine point point colour int

definition demo_classifier :: "snapshot list \<Rightarrow> nat \<times> real" where
  "demo_classifier w =
     (case w of
        [] \<Rightarrow> (0, 0)
      | _ \<Rightarrow> (case last w of [] \<Rightarrow> (0, 0) | (x, y, z) # _ \<Rightarrow> (nat \<lfloor>x\<rfloor>, y)))"

definition log_ext :: "prim list ext" where
  "log_ext =
     \<lparr>blank_canvas = [],
      cv2_line = (\<lambda>c p q col th. c @ [Line p q col th]),
      cv2_rectangle = (\<lambda>c p q col th. c @ [Rectangle p q col th]),
      cv2_circle = (\<lambda>c p r col th. c @ [Circle p r col th]),
      cv2_arrowedLine = (\<lambda>c p q col th. c @ [ArrowedLine p q col th]),
      classifier = demo_classifier,
      strftime = (\<lambda>t. show_int (py_int t))\<rparr>"

definition hand_at :: "real \<Rightarrow> real \<Rightarrow> real \<Rightarrow> real \<Rightarrow> landmark list" where
  "hand_at cls conf px py =
     (cls, conf, 0) # replicate 7 (0, 0, 0) @ [(px, py, 0)] @ replicate 12 (0, 0, 0)"

definition sixty_canvases :: "prim list list" where
  "sixty_canvases = map (\<lambda>i. [Line (0, 0) (int i, 0) (0, 0, 255) 5]) [0..<60]"

text \<open>
  A state in shape preview with the anchor set: shape mode is requested, then a stroke
  is started at \<open>(100, 100)\<close>.
\<close>

definition preview_state :: "prim list app" where
  "preview_state = start_drawing 100 100 (dispatch log_ext 0 ''draw_shapes'' (app_init log_ext 0))"

section \<open>Frames and invariants for whole runs\<close>

text \<open>Frames for concrete runs: a tracked hand, a lost hand, a key press without a hand.\<close>

definition hand_frame :: "real \<Rightarrow> real \<Rightarrow> real \<Rightarrow> real \<Rightarrow> real \<Rightarrow> frame" where
  "hand_frame cls conf px py t = \<lparr>hand = Some (hand_at cls conf px py), key = 255, clock = t\<rparr>"

definition lost_frame :: "real \<Rightarrow> frame" where
  "lost_frame t = \<lparr>hand = None, key = 255, clock = t\<rparr>"

definition key_frame :: "char \<Rightarrow> real \<Rightarrow> frame" where
  "key_frame c t = \<lparr>hand = None, key = ord c, clock = t\<rparr>"

text \<open>
  Every buffered snapshot has 21 points, and every tensor handed to the interpreter is a
  window of \<open>sequence_length\<close> snapshots of 21 points each.
\<close>

definition windows_ok :: "'c app \<Rightarrow> bool" where
  "windows_ok s \<longleftrightarrow>
     (\<forall>snap \<in> set (frame_buffer s). length snap = 21)
     \<and> (\<forall>w \<in> set (interpreter_calls s).
           length w = sequence_length \<and> (\<forall>snap \<in> set w. length snap = 21))"

text \<open>A shape anchor is set only while a stroke is in progress in shape mode.\<close>

definition anchor_ok :: "'c app \<Rightarrow> bool" where
  "anchor_ok s \<longleftrightarrow> (shape_start_point s \<noteq> None \<longrightarrow> drawing s \<and> shape_drawing s)"

text \<open>Four frames with a tracked hand, classified as \<^verbatim>\<open>write_start\<close> with probability 0.9.\<close>

definition four_frames :: "frame list" where
  "four_frames = [hand_frame 0 0.9 0.1 0.1 1, hand_frame 0 0.9 0.2 0.2 2,
                  hand_frame 0 0.9 0.3 0.3 3, hand_frame 0 0.9 0.4 0.4 4]"

text \<open>
  Three frames with a tracked hand, one hundred frames without a hand, and one more frame
  with a tracked hand.
\<close>

definition loss_frames :: "frame list" where
  "loss_frames =
     [hand_frame 0 0.9 0.1 0.1 1, hand_frame 0 0.9 0.2 0.2 2, hand_frame 0 0.9 0.3 0.3 3]
     @ replicate 100 (lost_frame 4)
     @ [hand_frame 0 0.9 0.4 0.4 5]"

text \<open>
  A stroke is started (\<^verbatim>\<open>write_start\<close> on the fourth frame, two seconds after start-up),
  and two seconds later the classifier reports \<^verbatim>\<open>pan\<close>.
\<close>

definition stroke_then_pan :: "frame list" where
  "stroke_then_pan =
     [hand_frame 0 0.9 0.5 0.5 2, hand_frame 0 0.9 0.5 0.5 2, hand_frame 0 0.9 0.5 0.5 2,
      hand_frame 0 0.9 0.5 0.5 2, hand_frame 10 0.9 0.625 0.5 4]"

definition stroke_started :: "prim list app" where
  "stroke_started = run log_ext (take 4 stroke_then_pan) (app_init log_ext 0)"

text \<open>
  The key \<^verbatim>\<open>z\<close> zooms in to 1.2; the \<^verbatim>\<open>pan\<close> gesture is recognised on the fourth hand
  frame with the fingertip at \<open>(600, 400)\<close>, and the fingertip moves to \<open>(525, 350)\<close>;
  the key \<^verbatim>\<open>x\<close> zooms out again.
\<close>

definition zoom_pan_zoom :: "frame list" where
  "zoom_pan_zoom =
     [key_frame CHR ''z'' 1,
      hand_frame 10 0.9 0.5 0.5 2, hand_frame 10 0.9 0.5 0.5 2, hand_frame 10 0.9 0.5 0.5 2,
      hand_frame 10 0.9 0.5 0.5 2, hand_frame 10 0.9 0.4375 0.4375 3,
      key_frame CHR ''x'' 4]"

text \<open>
  A session that leaves an uncommitted erasing stroke: a red stroke is drawn from
  \<open>(600, 400)\<close> to \<open>(750, 400)\<close> and committed by \<^verbatim>\<open>write_stop\<close>, the eraser is switched
  on, and an erasing stroke is drawn back over it and ended (which saves no history
  entry).
\<close>

definition erase_session :: "frame list" where
  "erase_session =
     [hand_frame 0 0.9 0.5 0.5 2, hand_frame 0 0.9 0.5 0.5 2, hand_frame 0 0.9 0.5 0.5 2,
      hand_frame 0 0.9 0.5 0.5 2, hand_frame 0 0.9 0.625 0.5 2.5,
      hand_frame 1 0.9 0.625 0.5 4,
      hand_frame 2 0.9 0.625 0.5 6,
      hand_frame 0 0.9 0.625 0.5 8, hand_frame 0 0.9 0.5 0.5 8.5,
      hand_frame 1 0.9 0.5 0.5 10]"

definition erased_state :: "prim list app" where
  "erased_state = run log_ext erase_session (app_init log_ext 0)"

text \<open>
  The three implementations after the same four frames, two seconds after start-up,
  all classified as \<^verbatim>\<open>write_start\<close> with probability 0.9: \<open>stroke_started\<close> above,
  and the following states of the simplified application and of the service.
\<close>

definition gw_started :: "prim list gw" where
  "gw_started =
     gw_recognise log_ext 2 (hand_at 0 0.9 0.5 0.5)
       (gw_recognise log_ext 2 (hand_at 0 0.9 0.5 0.5)
         (gw_recognise log_ext 2 (hand_at 0 0.9 0.5 0.5)
           (gw_recognise log_ext 2 (hand_at 0 0.9 0.5 0.5) (gw_init log_ext))))"

definition be_started :: backend where
  "be_started =
     fst (process_frame log_ext 2 (hand_at 0 0.9 0.5 0.5)
       (fst (process_frame log_ext 2 (hand_at 0 0.9 0.5 0.5)
         (fst (process_frame log_ext 2 (hand_at 0 0.9 0.5 0.5)
           (fst (process_frame log_ext 2 (hand_at 0 0.9 0.5 0.5) be_init)))))))"

text \<open>The window completed by a fifth snapshot, classified as \<^verbatim>\<open>write_stop\<close>.\<close>

definition switch_window :: "snapshot list" where
  "switch_window = replicate 3 (hand_at 0 0.9 0.5 0.5) @ [hand_at 1 0.9 0.5 0.5]"

section \<open>Bounded deques and the history\<close>

lemma length_dq_append: "0 < n \<Longrightarrow> length (dq_append n x d) = min n (Suc (length d))"
  by (auto simp: dq_append_def)

lemma dq_append_neq_Nil: "0 < n \<Longrightarrow> dq_append n x d \<noteq> []"
  by (auto simp: dq_append_def)

lemma last_dq_append: "0 < n \<Longrightarrow> last (dq_append n x d) = x"
  by (auto simp: dq_append_def)

lemma butlast_dq_append: "0 < n \<Longrightarrow> butlast (dq_append n x d) = drop (Suc (length d) - n) d"
  by (auto simp: dq_append_def butlast_append  butlast_drop)

lemma dq_append_short: "length d < n \<Longrightarrow> dq_append n x d = d @ [x]"
  by (auto simp: dq_append_def)

lemma dq_append_full: "0 < n \<Longrightarrow> length d = n \<Longrightarrow> dq_append n x d = tl d @ [x]"
  by (cases d) (auto simp: dq_append_def)

lemma fold_dq_append:
  "0 < n \<Longrightarrow> length d \<le> n \<Longrightarrow> fold (dq_append n) cs d = drop (length (d @ cs) - n) (d @ cs)"
proof (induction cs arbitrary: d)
  case Nil
  then show ?case by simp
next
  case (Cons c cs)
  show ?case
  proof (cases "length d < n")
    case True
    then have "dq_append n c d = d @ [c]" by (rule dq_append_short)
    moreover have "length (d @ [c]) \<le> n" using True by simp
    ultimately show ?thesis using Cons.IH [of "d @ [c]"] Cons.prems(1) by simp
  next
    case False
    with Cons.prems have len: "length d = n" by simp
    then obtain a d' where d: "d = a # d'" using Cons.prems(1) by (cases d) auto
    have n: "n = Suc (length d')" using len d by simp
    have step: "dq_append n c d = d' @ [c]"
      using dq_append_full [OF Cons.prems(1) len] d by simp
    have "fold (dq_append n) (c # cs) d = fold (dq_append n) cs (d' @ [c])"
      by (simp add: step)
    also have "\<dots> = drop (length ((d' @ [c]) @ cs) - n) ((d' @ [c]) @ cs)"
      using Cons.IH [of "d' @ [c]"] Cons.prems(1) n by simp
    also have "\<dots> = drop (length (d @ c # cs) - n) (d @ c # cs)"
      unfolding d n by simp
    finally show ?thesis .
  qed
qed

lemma history_commit: "history (commit c s) = dq_append history_maxlen c (history s)"
  by (simp add: commit_def save_history_def)

lemma history_fold_commit:
  "history (fold commit cs s) = fold (dq_append history_maxlen) cs (history s)"
  by (induction cs arbitrary: s) (simp_all add: history_commit)

lemma history_app_init: "history (app_init E t0) = [blank_canvas E]"
  by (simp add: app_init_def save_history_def dq_append_def history_maxlen_def)

lemma history_after_commits:
  "history (fold commit cs (app_init E t0)) = drop (Suc (length cs) - 50) (blank_canvas E # cs)"
  by (simp add: history_fold_commit history_app_init fold_dq_append history_maxlen_def)

lemma history_undo:
  "history (undo now s) = (if length (history s) > 1 then butlast (history s) else history s)"
  by (simp add: undo_def status_def Let_def)

lemma history_undo_pow:
  "history ((undo now ^^ k) s) = take (max 1 (length (history s) - k)) (history s)"
proof (induction k)
  case 0
  then show ?case by simp
next
  case (Suc k)
  define h where "h = history s"
  define j where "j = max 1 (length h - k)"
  define t where "t = (undo now ^^ k) s"
  have IH: "history t = take j h"
    using Suc by (simp add: h_def j_def t_def)
  have step: "history ((undo now ^^ Suc k) s) = history (undo now t)"
    by (simp add: t_def)
  show ?case
  proof (cases "length (take j h) > 1")
    case True
    then have j: "1 < j" "j \<le> length h" by (auto simp: j_def)
    then have jk: "j = length h - k" by (auto simp: j_def max_def split: if_splits)
    have "max 1 (length h - Suc k) = j - 1" using j jk by simp
    then have "butlast (take j h) = take (max 1 (length h - Suc k)) h"
      using j by (simp add: butlast_take)
    moreover have "history (undo now t) = butlast (take j h)"
      using True IH by (simp add: history_undo)
    ultimately show ?thesis unfolding step h_def by simp
  next
    case False
    have "take j h = take (max 1 (length h - Suc k)) h"
    proof (cases "length h \<le> 1")
      case True
      then show ?thesis by (simp add: j_def)
    next
      case long: False
      with False have "j \<le> 1" by simp
      then have "length h - k \<le> 1" by (simp add: j_def)
      then have "max 1 (length h - Suc k) = j" by (simp add: j_def max_def)
      then show ?thesis by simp
    qed
    moreover have "history (undo now t) = take j h"
      using False IH by (auto simp add: history_undo)
    ultimately show ?thesis unfolding step h_def by simp
  qed
qed

lemma undo_noop: "length (history s) \<le> 1 \<Longrightarrow> undo now s = s"
  by (simp add: undo_def)

lemma canvas_undo:
  "canvas (undo now s) = (if length (history s) > 1 then last (butlast (history s)) else canvas s)"
  by (simp add: undo_def status_def Let_def)

lemma redo_stack_undo:
  "redo_stack (undo now s) =
     (if length (history s) > 1 then dq_append history_maxlen (last (history s)) (redo_stack s)
      else redo_stack s)"
  by (simp add: undo_def status_def Let_def)

lemma canvas_redo:
  "canvas (redo now s) = (if redo_stack s \<noteq> [] then last (redo_stack s) else canvas s)"
  by (simp add: redo_def status_def Let_def)

lemma history_redo:
  "history (redo now s) =
     (if redo_stack s \<noteq> [] then dq_append history_maxlen (last (redo_stack s)) (history s)
      else history s)"
  by (simp add: redo_def status_def Let_def)

lemma history_maxlen_pos: "0 < history_maxlen"
  by (simp add: history_maxlen_def)

lemma last_butlast_dq_append:
  assumes "1 < n" and "d \<noteq> []"
  shows "last (butlast (dq_append n x d)) = last d"
proof -
  from assms(2) have "0 < length d" by simp
  with assms(1) have "Suc (length d) - n < length d" by arith
  then show ?thesis using assms(1) by (simp add: butlast_dq_append last_drop)
qed

lemma draw_shape_temp_only:
  "draw_shape E x y s = s\<lparr>temp_canvas := temp_canvas (draw_shape E x y s)\<rparr>"
proof (cases "shape_start_point s")
  case None
  then show ?thesis by (simp add: draw_shape_def)
next
  case (Some a)
  then show ?thesis
    by (cases a) (simp add: draw_shape_def Let_def)
qed

lemma fold_draw_shape_temp_only:
  "fold (\<lambda>(x, y). draw_shape E x y) pts s
     = s\<lparr>temp_canvas := temp_canvas (fold (\<lambda>(x, y). draw_shape E x y) pts s)\<rparr>"
proof (induction pts arbitrary: s)
  case Nil
  show ?case by simp
next
  case (Cons p pts)
  obtain x y where p: "p = (x, y)" by (cases p)
  define s1 where "s1 = draw_shape E x y s"
  define T where "T = temp_canvas (fold (\<lambda>(x, y). draw_shape E x y) pts s1)"
  have a: "s1 = s\<lparr>temp_canvas := temp_canvas s1\<rparr>"
    unfolding s1_def by (rule draw_shape_temp_only)
  have b: "fold (\<lambda>(x, y). draw_shape E x y) pts s1 = s1\<lparr>temp_canvas := T\<rparr>"
    unfolding T_def by (rule Cons.IH)
  have "fold (\<lambda>(x, y). draw_shape E x y) (p # pts) s = s1\<lparr>temp_canvas := T\<rparr>"
    using b by (simp add: p s1_def)
  also have "\<dots> = s\<lparr>temp_canvas := T\<rparr>"
    by (subst a) simp
  finally have c: "fold (\<lambda>(x, y). draw_shape E x y) (p # pts) s = s\<lparr>temp_canvas := T\<rparr>" .
  then have "temp_canvas (fold (\<lambda>(x, y). draw_shape E x y) (p # pts) s) = T" by simp
  with c show ?case by simp
qed

section \<open>Evaluation of the concrete states\<close>

lemma gesture_names:
  "gesture_name_of (Some 0) = ''write_start''"
  "gesture_name_of (Some 1) = ''write_stop''"
  "gesture_name_of (Some (Suc 0)) = ''write_stop''"
  "gesture_name_of (Some 10) = ''pan''"
  by code_simp+

section \<open>The circle radius\<close>

lemma sqrt_search_spec:
  "sqrt_search n m \<le> m \<and> sqrt_search n m * sqrt_search n m \<le> n
   \<and> (\<forall>k \<le> m. k * k \<le> n \<longrightarrow> k \<le> sqrt_search n m)"
proof (induction m)
  case 0
  then show ?case by simp
next
  case (Suc m)
  show ?case
  proof (cases "Suc m * Suc m \<le> n")
    case True
    then show ?thesis by simp
  next
    case False
    then show ?thesis using Suc by (auto simp: le_Suc_eq)
  qed
qed

lemma floor_sqrt_bounds:
  "floor_sqrt n * floor_sqrt n \<le> n \<and> n < Suc (floor_sqrt n) * Suc (floor_sqrt n)"
proof -
  define r where "r = floor_sqrt n"
  have s: "r \<le> n" "r * r \<le> n" "\<forall>k \<le> n. k * k \<le> n \<longrightarrow> k \<le> r"
    using sqrt_search_spec [of n n] by (simp_all add: r_def floor_sqrt_def)
  have "n < Suc r * Suc r"
  proof (cases "Suc r \<le> n")
    case True
    show ?thesis
    proof (rule ccontr)
      assume "\<not> n < Suc r * Suc r"
      then have "Suc r * Suc r \<le> n" by simp
      with s(3) True have "Suc r \<le> r" by blast
      then show False by simp
    qed
  next
    case False
    with s(1) have "r = n" by simp
    then show ?thesis by simp
  qed
  with s(2) show ?thesis unfolding r_def by simp
qed

lemma floor_sqrt_real: "\<lfloor>sqrt (real n)\<rfloor> = int (floor_sqrt n)"
proof -
  define r where "r = floor_sqrt n"
  have b: "r * r \<le> n" "n < Suc r * Suc r"
    using floor_sqrt_bounds [of n] by (simp_all add: r_def)
  have lo: "real r \<le> sqrt (real n)"
  proof (rule real_le_rsqrt)
    have "real (r * r) \<le> real n" using b(1) by (simp only: of_nat_le_iff)
    then show "(real r)\<^sup>2 \<le> real n" by (simp add: power2_eq_square)
  qed
  have hi: "sqrt (real n) < real r + 1"
  proof (rule real_less_lsqrt)
    have "real n < real (Suc r * Suc r)" using b(2) by (simp only: of_nat_less_iff)
    then show "real n < (real r + 1)\<^sup>2" by (simp add: power2_eq_square algebra_simps)
  qed simp
  have "\<lfloor>sqrt (real n)\<rfloor> = int r"
    using lo hi by (simp add: floor_eq_iff)
  then show ?thesis by (simp add: r_def)
qed

lemma radius_floor_sqrt:
  assumes "0 \<le> d"
  shows "\<lfloor>sqrt (of_int d) / 2\<rfloor> = int (floor_sqrt (nat d)) div 2"
proof -
  have "\<lfloor>sqrt (real (nat d)) / real_of_int 2\<rfloor> = \<lfloor>sqrt (real (nat d))\<rfloor> div 2"
    by (rule floor_divide_real_eq_div) simp
  then have "\<lfloor>sqrt (real (nat d)) / 2\<rfloor> = int (floor_sqrt (nat d)) div 2"
    by (simp only: floor_sqrt_real of_int_numeral)
  moreover have "real (nat d) = of_int d" using assms by simp
  ultimately show ?thesis by (simp only:)
qed

section \<open>Frame conditions of the main loop\<close>

lemma set_dq_append: "set (dq_append n x d) \<subseteq> insert x (set d)"
  by (auto simp: dq_append_def dest: in_set_dropD)

lemma status_buffer [simp]:
  "frame_buffer (status m now s) = frame_buffer s"
  "interpreter_calls (status m now s) = interpreter_calls s"
  by (simp_all add: status_def)

lemma undo_buffer [simp]:
  "frame_buffer (undo now s) = frame_buffer s"
  "interpreter_calls (undo now s) = interpreter_calls s"
  by (simp_all add: undo_def Let_def)

lemma redo_buffer [simp]:
  "frame_buffer (redo now s) = frame_buffer s"
  "interpreter_calls (redo now s) = interpreter_calls s"
  by (simp_all add: redo_def Let_def)

lemma clear_canvas_buffer [simp]:
  "frame_buffer (clear_canvas E now s) = frame_buffer s"
  "interpreter_calls (clear_canvas E now s) = interpreter_calls s"
  by (simp_all add: clear_canvas_def save_history_def)

lemma change_color_buffer [simp]:
  "frame_buffer (change_color now s) = frame_buffer s"
  "interpreter_calls (change_color now s) = interpreter_calls s"
  by (simp_all add: change_color_def Let_def)

lemma zoom_buffer [simp]:
  "frame_buffer (zoom d now s) = frame_buffer s"
  "interpreter_calls (zoom d now s) = interpreter_calls s"
  by (simp_all add: zoom_def Let_def)

lemma toggle_erasing_buffer [simp]:
  "frame_buffer (toggle_erasing now s) = frame_buffer s"
  "interpreter_calls (toggle_erasing now s) = interpreter_calls s"
  by (simp_all add: toggle_erasing_def Let_def)

lemma save_canvas_buffer [simp]:
  "frame_buffer (save_canvas E now s) = frame_buffer s"
  "interpreter_calls (save_canvas E now s) = interpreter_calls s"
  by (simp_all add: save_canvas_def Let_def)

lemma start_pan_buffer [simp]:
  "frame_buffer (start_pan x y now s) = frame_buffer s"
  "interpreter_calls (start_pan x y now s) = interpreter_calls s"
  by (simp_all add: start_pan_def)

lemma pan_buffer [simp]:
  "frame_buffer (pan x y s) = frame_buffer s"
  "interpreter_calls (pan x y s) = interpreter_calls s"
  by (simp_all add: pan_def Let_def)

lemma end_pan_buffer [simp]:
  "frame_buffer (end_pan now s) = frame_buffer s"
  "interpreter_calls (end_pan now s) = interpreter_calls s"
  by (simp_all add: end_pan_def)

lemma start_drawing_buffer [simp]:
  "frame_buffer (start_drawing x y s) = frame_buffer s"
  "interpreter_calls (start_drawing x y s) = interpreter_calls s"
  by (simp_all add: start_drawing_def Let_def)

lemma draw_buffer [simp]:
  "frame_buffer (draw E x y s) = frame_buffer s"
  "interpreter_calls (draw E x y s) = interpreter_calls s"
  by (simp_all add: draw_def Let_def)

lemma end_drawing_buffer [simp]:
  "frame_buffer (end_drawing s) = frame_buffer s"
  "interpreter_calls (end_drawing s) = interpreter_calls s"
  by (simp_all add: end_drawing_def save_history_def Let_def)

lemma draw_shape_buffer [simp]:
  "frame_buffer (draw_shape E x y s) = frame_buffer s"
  "interpreter_calls (draw_shape E x y s) = interpreter_calls s"
  by (subst draw_shape_temp_only, simp)+

lemma dispatch_buffer [simp]:
  "frame_buffer (dispatch E now n s) = frame_buffer s"
  "interpreter_calls (dispatch E now n s) = interpreter_calls s"
  by (simp_all add: dispatch_def)

lemma handle_gesture_buffer [simp]:
  "frame_buffer (handle_gesture E now gid s) = frame_buffer s"
  "interpreter_calls (handle_gesture E now gid s) = interpreter_calls s"
  by (simp_all add: handle_gesture_def Let_def)

lemma pan_stage_buffer [simp]:
  "frame_buffer (pan_stage now fp s) = frame_buffer s"
  "interpreter_calls (pan_stage now fp s) = interpreter_calls s"
  by (simp_all add: pan_stage_def split: option.split prod.split)

lemma draw_stage_buffer [simp]:
  "frame_buffer (draw_stage E fp s) = frame_buffer s"
  "interpreter_calls (draw_stage E fp s) = interpreter_calls s"
  by (simp_all add: draw_stage_def Let_def split: option.split prod.split)

lemma key_stage_buffer [simp]:
  "frame_buffer (key_stage E now k s) = frame_buffer s"
  "interpreter_calls (key_stage E now k s) = interpreter_calls s"
  by (simp_all add: key_stage_def)

lemma recognise_rejects:
  "length landmarks \<noteq> 21 \<Longrightarrow> recognise E now landmarks s = s"
  by (simp add: recognise_def process_landmarks_def)

lemma frame_buffer_recognise:
  "frame_buffer (recognise E now landmarks s) =
     (if length landmarks = 21 then dq_append sequence_length landmarks (frame_buffer s)
      else frame_buffer s)"
  by (simp add: recognise_def process_landmarks_def predict_gesture_def Let_def
        split: prod.split)

lemma interpreter_calls_recognise:
  "interpreter_calls (recognise E now landmarks s) =
     (if length landmarks = 21
         \<and> length (dq_append sequence_length landmarks (frame_buffer s)) = sequence_length
      then interpreter_calls s @ [dq_append sequence_length landmarks (frame_buffer s)]
      else interpreter_calls s)"
  by (simp add: recognise_def process_landmarks_def predict_gesture_def Let_def
        split: prod.split)

lemma frame_buffer_frame_step:
  "frame_buffer (frame_step E f s) =
     (case hand f of
        None \<Rightarrow> frame_buffer s
      | Some landmarks \<Rightarrow> frame_buffer (recognise E (clock f) landmarks s))"
  by (simp add: frame_step_def Let_def split: option.split)

lemma interpreter_calls_frame_step:
  "interpreter_calls (frame_step E f s) =
     (case hand f of
        None \<Rightarrow> interpreter_calls s
      | Some landmarks \<Rightarrow> interpreter_calls (recognise E (clock f) landmarks s))"
  by (simp add: frame_step_def Let_def split: option.split)

lemma windows_ok_recognise: "windows_ok s \<Longrightarrow> windows_ok (recognise E now landmarks s)"
  using set_dq_append [of sequence_length landmarks "frame_buffer s"]
  by (auto simp add: windows_ok_def frame_buffer_recognise interpreter_calls_recognise)

lemma windows_ok_frame_step: "windows_ok s \<Longrightarrow> windows_ok (frame_step E f s)"
proof (cases "hand f")
  case None
  then show "windows_ok s \<Longrightarrow> windows_ok (frame_step E f s)"
    by (simp add: windows_ok_def frame_buffer_frame_step interpreter_calls_frame_step)
next
  case (Some l)
  assume "windows_ok s"
  then have "windows_ok (recognise E (clock f) l s)" by (rule windows_ok_recognise)
  then show "windows_ok (frame_step E f s)"
    using Some by (simp add: windows_ok_def frame_buffer_frame_step interpreter_calls_frame_step)
qed

lemma windows_ok_run: "windows_ok s \<Longrightarrow> windows_ok (run E frames s)"
  by (induction frames arbitrary: s) (simp_all add: Let_def windows_ok_frame_step)

lemma windows_ok_init: "windows_ok (app_init E t0)"
  by (simp add: windows_ok_def app_init_def save_history_def)

lemma run_append:
  "\<forall>f \<in> set xs. key f \<noteq> ord CHR ''q'' \<Longrightarrow> run E (xs @ ys) s = run E ys (run E xs s)"
  by (induction xs arbitrary: s) (simp_all add: Let_def)

lemma run_no_hand:
  "\<forall>f \<in> set fs. hand f = None \<Longrightarrow>
     frame_buffer (run E fs s) = frame_buffer s \<and> interpreter_calls (run E fs s) = interpreter_calls s"
  by (induction fs arbitrary: s)
     (simp_all add: Let_def frame_buffer_frame_step interpreter_calls_frame_step)

lemma length_hand_at: "length (hand_at cls conf px py) = 21"
  by (simp add: hand_at_def)

lemma calls_four_frames:
  "interpreter_calls (run log_ext four_frames (app_init log_ext 0))
     = [[hand_at 0 0.9 0.1 0.1, hand_at 0 0.9 0.2 0.2, hand_at 0 0.9 0.3 0.3, hand_at 0 0.9 0.4 0.4]]"
proof -
  have i: "frame_buffer (app_init log_ext 0) = []" "interpreter_calls (app_init log_ext 0) = []"
    by (simp_all add: app_init_def save_history_def)
  have k: "(255::nat) \<noteq> ord CHR ''q''" by (simp add: ord_def)
  show ?thesis
    using k
    by (simp add: four_frames_def hand_frame_def Let_def interpreter_calls_frame_step
          frame_buffer_frame_step interpreter_calls_recognise frame_buffer_recognise
          length_hand_at i dq_append_def sequence_length_def)
qed

lemma anchor_ok_status [simp]: "anchor_ok (status m now s) = anchor_ok s"
  by (simp add: anchor_ok_def status_def)

lemma anchor_ok_undo [simp]: "anchor_ok (undo now s) = anchor_ok s"
  by (simp add: anchor_ok_def undo_def status_def Let_def)

lemma anchor_ok_redo [simp]: "anchor_ok (redo now s) = anchor_ok s"
  by (simp add: anchor_ok_def redo_def status_def Let_def)

lemma anchor_ok_clear_canvas [simp]: "anchor_ok (clear_canvas E now s) = anchor_ok s"
  by (simp add: anchor_ok_def clear_canvas_def save_history_def status_def)

lemma anchor_ok_change_color [simp]: "anchor_ok (change_color now s) = anchor_ok s"
  by (simp add: anchor_ok_def change_color_def status_def Let_def)

lemma anchor_ok_zoom [simp]: "anchor_ok (zoom d now s) = anchor_ok s"
  by (simp add: anchor_ok_def zoom_def status_def Let_def)

lemma anchor_ok_toggle_erasing [simp]: "anchor_ok (toggle_erasing now s) = anchor_ok s"
  by (simp add: anchor_ok_def toggle_erasing_def status_def Let_def)

lemma anchor_ok_save_canvas [simp]: "anchor_ok (save_canvas E now s) = anchor_ok s"
  by (simp add: anchor_ok_def save_canvas_def status_def Let_def)

lemma anchor_ok_start_pan [simp]: "anchor_ok (start_pan x y now s) = anchor_ok s"
  by (simp add: anchor_ok_def start_pan_def status_def)

lemma anchor_ok_pan [simp]: "anchor_ok (pan x y s) = anchor_ok s"
  by (simp add: anchor_ok_def pan_def Let_def)

lemma anchor_ok_end_pan [simp]: "anchor_ok (end_pan now s) = anchor_ok s"
  by (simp add: anchor_ok_def end_pan_def status_def)

lemma anchor_ok_start_drawing: "anchor_ok s \<Longrightarrow> anchor_ok (start_drawing x y s)"
  by (auto simp add: anchor_ok_def start_drawing_def Let_def)

lemma anchor_ok_draw [simp]: "anchor_ok (draw E x y s) = anchor_ok s"
  by (simp add: anchor_ok_def draw_def Let_def)

lemma anchor_ok_end_drawing: "anchor_ok (end_drawing s)"
  by (simp add: anchor_ok_def end_drawing_def Let_def)

lemma anchor_ok_draw_shape [simp]: "anchor_ok (draw_shape E x y s) = anchor_ok s"
  by (subst draw_shape_temp_only) (simp add: anchor_ok_def)

lemma anchor_ok_updates [simp]:
  "anchor_ok (s\<lparr>frame_buffer := fb\<rparr>) = anchor_ok s"
  "anchor_ok (s\<lparr>interpreter_calls := ic\<rparr>) = anchor_ok s"
  "anchor_ok (s\<lparr>last_gesture := g\<rparr>) = anchor_ok s"
  "anchor_ok (s\<lparr>last_gesture_time := t\<rparr>) = anchor_ok s"
  by (simp_all add: anchor_ok_def)

lemma anchor_ok_shape_mode: "anchor_ok s \<Longrightarrow> anchor_ok (s\<lparr>shape_drawing := True\<rparr>)"
  by (auto simp add: anchor_ok_def)

lemma anchor_ok_dispatch: "anchor_ok s \<Longrightarrow> anchor_ok (dispatch E now n s)"
  by (simp add: dispatch_def anchor_ok_end_drawing anchor_ok_shape_mode)

lemma anchor_ok_handle_gesture: "anchor_ok s \<Longrightarrow> anchor_ok (handle_gesture E now gid s)"
  by (simp add: handle_gesture_def Let_def anchor_ok_dispatch)

lemma anchor_ok_recognise: "anchor_ok s \<Longrightarrow> anchor_ok (recognise E now l s)"
  by (auto simp add: recognise_def predict_gesture_def Let_def anchor_ok_handle_gesture
        split: option.split prod.split)

lemma anchor_ok_pan_stage [simp]: "anchor_ok (pan_stage now fp s) = anchor_ok s"
  by (simp add: pan_stage_def split: option.split prod.split)

lemma anchor_ok_draw_stage: "anchor_ok s \<Longrightarrow> anchor_ok (draw_stage E fp s)"
  by (simp add: draw_stage_def Let_def anchor_ok_start_drawing split: option.split prod.split)

lemma anchor_ok_key_stage [simp]: "anchor_ok (key_stage E now k s) = anchor_ok s"
  by (simp add: key_stage_def)

lemma anchor_ok_frame_step: "anchor_ok s \<Longrightarrow> anchor_ok (frame_step E f s)"
  by (simp add: frame_step_def Let_def anchor_ok_draw_stage anchor_ok_recognise
        split: option.split)

lemma anchor_ok_run: "anchor_ok s \<Longrightarrow> anchor_ok (run E frames s)"
  by (induction frames arbitrary: s) (simp_all add: Let_def anchor_ok_frame_step)

lemma anchor_ok_init: "anchor_ok (app_init E t0)"
  by (simp add: anchor_ok_def app_init_def save_history_def)

lemma stroke_started_fields:
  "drawing stroke_started"
  "last_gesture stroke_started = Some ''write_start''"
  "last_gesture_time stroke_started = 2"
  "history stroke_started = [[]]"
  "canvas stroke_started = [Line (600, 400) (600, 400) (0, 0, 255) 5]"
  by code_simp+

lemma pan_offsets_clamped:
  assumes "pan_mode s" and "1 \<le> zoom_factor s"
  shows "- of_int canvas_width * (zoom_factor s - 1) \<le> offset_x (pan x y s)
       \<and> offset_x (pan x y s) \<le> 0
       \<and> - of_int canvas_height * (zoom_factor s - 1) \<le> offset_y (pan x y s)
       \<and> offset_y (pan x y s) \<le> 0
       \<and> zoom_factor (pan x y s) = zoom_factor s"
  using assms
  by (simp add: pan_def Let_def canvas_width_def canvas_height_def max_def min_def)

lemma zoom_factor_range:
  assumes "1 \<le> zoom_factor s" and "zoom_factor s \<le> 3"
  shows "1 \<le> zoom_factor (zoom d now s) \<and> zoom_factor (zoom d now s) \<le> 3"
  using assms by (simp add: zoom_def status_def Let_def)

lemma recognise_not_dispatched:
  assumes "\<not> (length landmarks = 21
            \<and> length (dq_append sequence_length landmarks (frame_buffer s)) = sequence_length
            \<and> snd (classifier E (dq_append sequence_length landmarks (frame_buffer s))) > 0.7
            \<and> gesture_cooldown \<le> now - last_gesture_time s
            \<and> Some (gesture_name_of
                   (Some (fst (classifier E (dq_append sequence_length landmarks (frame_buffer s))))))
                \<noteq> last_gesture s)"
  shows "recognise E now landmarks s
           = s\<lparr>frame_buffer := frame_buffer (recognise E now landmarks s),
               interpreter_calls := interpreter_calls (recognise E now landmarks s)\<rparr>"
proof (cases "length landmarks = 21")
  case False
  then show ?thesis by (simp add: recognise_rejects)
next
  case len: True
  define b where "b = dq_append sequence_length landmarks (frame_buffer s)"
  show ?thesis
  proof (cases "length b = sequence_length")
    case False
    then show ?thesis
      using len by (simp add: recognise_def process_landmarks_def Let_def b_def)
  next
    case full: True
    obtain c p where cp: "classifier E b = (c, p)" by (cases "classifier E b")
    define s2 where "s2 = s\<lparr>frame_buffer := b, interpreter_calls := interpreter_calls s @ [b]\<rparr>"
    have r: "recognise E now landmarks s = (if p > 0.7 then handle_gesture E now (Some c) s2 else s2)"
      using len full cp
      by (simp add: recognise_def process_landmarks_def predict_gesture_def Let_def b_def s2_def)
    show ?thesis
    proof (cases "p > 0.7")
      case False
      then show ?thesis using r by (simp add: s2_def)
    next
      case True
      with assms len full cp
      have "now - last_gesture_time s < gesture_cooldown
            \<or> Some (gesture_name_of (Some c)) = last_gesture s"
        by (auto simp: b_def)
      then have "handle_gesture E now (Some c) s2 = s2"
        by (auto simp add: handle_gesture_def s2_def Let_def)
      then show ?thesis using r True by (simp add: s2_def)
    qed
  qed
qed

section \<open>The three debouncers\<close>

lemma gw_debounce_rule:
  "gw_debounce E now name g =
     (if Some name \<noteq> gw_last_gesture g \<or> now - gw_last_gesture_time g > 1
      then gw_handle_gesture E now name (g\<lparr>gw_last_gesture := Some name, gw_last_gesture_time := now\<rparr>)
      else g)"
  by (simp add: gw_debounce_def gw_gesture_cooldown_def)

lemma handle_gesture_rule:
  "handle_gesture E now gid s =
     (if 1 \<le> now - last_gesture_time s \<and> Some (gesture_name_of gid) \<noteq> last_gesture s
      then dispatch E now (gesture_name_of gid)
             (s\<lparr>last_gesture := Some (gesture_name_of gid), last_gesture_time := now\<rparr>)
      else s)"
  by (simp add: handle_gesture_def gesture_cooldown_def Let_def not_less)

lemma be_debounce_rule:
  "be_debounce now name conf tip b =
     (if now - be_last_gesture_time b > 1 / 2
      then (b\<lparr>current_gesture := Some name, gesture_confidence := conf, be_last_gesture_time := now\<rparr>,
            Some \<lparr>gesture = name, confidence = conf,
                  coordinates = (fst tip, fst (snd tip)), timestamp = now\<rparr>)
      else (b, None))"
  by (simp add: be_debounce_def be_gesture_cooldown_def)

section \<open>The claims\<close>

text \<open>
  C1 (as amended). Let a snapshot of 21 points complete a full window \<open>w\<close> that the
  classifier maps to class \<open>c\<close> with a probability above 0.7, so that the output passes
  the confidence gate. The three implementations then decide differently.
  \<^item> \<^verbatim>\<open>GestureWhiteboard.run\<close> dispatches if and only if the name differs from the
    previously emitted name or more than 1.0 s have passed since the last emission; a
    pose switch is dispatched at once.
  \<^item> \<^verbatim>\<open>WhiteboardApp\<close> dispatches if and only if at least 1.0 s has passed since the
    last emission and the name differs from the previously emitted name; otherwise
    nothing but the window buffer and the record of interpreter calls changes.
  \<^item> The service (\<^verbatim>\<open>GestureRecognitionBackend.process_frame\<close>) emits a gesture event
    if and only if more than 0.5 s have passed since the last emission, whatever the
    name.
\<close>

theorem C1_debounce_rules:
  assumes "length landmarks = 21" and "length w = sequence_length"
    and "classifier E w = (c, p)" and "0.7 < p"
    and "dq_append sequence_length landmarks (gw_frame_buffer g) = w"
    and "dq_append sequence_length landmarks (frame_buffer s) = w"
    and "dq_append 4 landmarks (be_frame_buffer b) = w"
  shows
   "gw_recognise E now landmarks g =
      (if Some (gw_name_of c) \<noteq> gw_last_gesture g \<or> now - gw_last_gesture_time g > 1
       then gw_handle_gesture E now (gw_name_of c)
              (g\<lparr>gw_frame_buffer := w, gw_last_gesture := Some (gw_name_of c),
                  gw_last_gesture_time := now\<rparr>)
       else g\<lparr>gw_frame_buffer := w\<rparr>)
    \<and> recognise E now landmarks s =
      (if 1 \<le> now - last_gesture_time s \<and> Some (gesture_name_of (Some c)) \<noteq> last_gesture s
       then dispatch E now (gesture_name_of (Some c))
              (s\<lparr>frame_buffer := w, interpreter_calls := interpreter_calls s @ [w],
                  last_gesture := Some (gesture_name_of (Some c)), last_gesture_time := now\<rparr>)
       else s\<lparr>frame_buffer := w, interpreter_calls := interpreter_calls s @ [w]\<rparr>)
    \<and> snd (process_frame E now landmarks b) =
      (if now - be_last_gesture_time b > 1 / 2
       then Some \<lparr>gesture = gesture_name_of (Some c), confidence = p,
                  coordinates = (fst (landmarks ! 8), fst (snd (landmarks ! 8))),
                  timestamp = now\<rparr>
       else None)"
proof -
  have a: "gw_recognise E now landmarks g =
      (if Some (gw_name_of c) \<noteq> gw_last_gesture g \<or> now - gw_last_gesture_time g > 1
       then gw_handle_gesture E now (gw_name_of c)
              (g\<lparr>gw_frame_buffer := w, gw_last_gesture := Some (gw_name_of c),
                  gw_last_gesture_time := now\<rparr>)
       else g\<lparr>gw_frame_buffer := w\<rparr>)"
    using assms
    by (simp add: gw_recognise_def process_landmarks_def gw_predict_gesture_def Let_def
          gw_debounce_rule gw_name_of_def)
  have b: "recognise E now landmarks s =
      (if 1 \<le> now - last_gesture_time s \<and> Some (gesture_name_of (Some c)) \<noteq> last_gesture s
       then dispatch E now (gesture_name_of (Some c))
              (s\<lparr>frame_buffer := w, interpreter_calls := interpreter_calls s @ [w],
                  last_gesture := Some (gesture_name_of (Some c)), last_gesture_time := now\<rparr>)
       else s\<lparr>frame_buffer := w, interpreter_calls := interpreter_calls s @ [w]\<rparr>)"
    using assms
    by (simp add: recognise_def process_landmarks_def predict_gesture_def Let_def
          handle_gesture_rule)
  have c: "snd (process_frame E now landmarks b) =
      (if now - be_last_gesture_time b > 1 / 2
       then Some \<lparr>gesture = gesture_name_of (Some c), confidence = p,
                  coordinates = (fst (landmarks ! 8), fst (snd (landmarks ! 8))),
                  timestamp = now\<rparr>
       else None)"
    using assms
    by (simp add: process_frame_def process_landmarks_def be_predict_gesture_def Let_def
          be_debounce_rule gesture_name_of_def)
  show ?thesis using a b c by blast
qed

theorem C1_debounce_rules_witness:
  "length (hand_at 1 0.9 0.5 0.5) = 21 \<and> length switch_window = sequence_length
   \<and> classifier log_ext switch_window = (1, 0.9) \<and> (0.7 :: real) < 0.9
   \<and> dq_append sequence_length (hand_at 1 0.9 0.5 0.5) (gw_frame_buffer gw_started) = switch_window
   \<and> dq_append sequence_length (hand_at 1 0.9 0.5 0.5) (frame_buffer stroke_started) = switch_window
   \<and> dq_append 4 (hand_at 1 0.9 0.5 0.5) (be_frame_buffer be_started) = switch_window
   \<and> gw_last_gesture gw_started = Some ''write_start''
   \<and> gw_last_gesture (gw_recognise log_ext 2.25 (hand_at 1 0.9 0.5 0.5) gw_started)
       = Some ''write_stop''
   \<and> last_gesture stroke_started = Some ''write_start''
   \<and> last_gesture (recognise log_ext 2.25 (hand_at 1 0.9 0.5 0.5) stroke_started)
       = Some ''write_start''
   \<and> last_gesture (recognise log_ext 3 (hand_at 1 0.9 0.5 0.5) stroke_started)
       = Some ''write_stop''
   \<and> snd (process_frame log_ext 2.25 (hand_at 1 0.9 0.5 0.5) be_started) = None
   \<and> snd (process_frame log_ext 3 (hand_at 1 0.9 0.5 0.5) be_started) \<noteq> None"
proof -
  have h: "length (hand_at 1 0.9 0.5 0.5) = 21" "length switch_window = sequence_length"
          "classifier log_ext switch_window = (1, 0.9)" "(0.7 :: real) < 0.9"
          "dq_append sequence_length (hand_at 1 0.9 0.5 0.5) (gw_frame_buffer gw_started)
             = switch_window"
          "dq_append sequence_length (hand_at 1 0.9 0.5 0.5) (frame_buffer stroke_started)
             = switch_window"
          "dq_append 4 (hand_at 1 0.9 0.5 0.5) (be_frame_buffer be_started) = switch_window"
    by code_simp+
  have f: "gw_last_gesture gw_started = Some ''write_start''"
          "gw_last_gesture_time gw_started = 2"
          "last_gesture stroke_started = Some ''write_start''"
          "last_gesture_time stroke_started = 2"
          "be_last_gesture_time be_started = 2"
          "gw_name_of 1 = ''write_stop''" "gw_name_of (Suc 0) = ''write_stop''"
          "gesture_name_of (Some 1) = ''write_stop''"
          "gesture_name_of (Some (Suc 0)) = ''write_stop''"
    by code_simp+
  note early = C1_debounce_rules [OF h, where now = "2.25"]
  note late = C1_debounce_rules [OF h, where now = 3]
  have a: "gw_last_gesture (gw_recognise log_ext 2.25 (hand_at 1 0.9 0.5 0.5) gw_started)
             = Some ''write_stop''"
    using early [THEN conjunct1] by (simp add: f gw_handle_gesture_def Let_def)
  have b: "last_gesture (recognise log_ext 2.25 (hand_at 1 0.9 0.5 0.5) stroke_started)
             = Some ''write_start''"
    using early [THEN conjunct2, THEN conjunct1] by (simp add: f)
  have c: "last_gesture (recognise log_ext 3 (hand_at 1 0.9 0.5 0.5) stroke_started)
             = Some ''write_stop''"
    using late [THEN conjunct2, THEN conjunct1]
    by (simp add: f dispatch_def status_def end_drawing_def save_history_def Let_def)
  have d: "snd (process_frame log_ext 2.25 (hand_at 1 0.9 0.5 0.5) be_started) = None"
    using early [THEN conjunct2, THEN conjunct2] by (simp add: f)
  have e: "snd (process_frame log_ext 3 (hand_at 1 0.9 0.5 0.5) be_started) \<noteq> None"
    using late [THEN conjunct2, THEN conjunct2] by (simp add: f)
  show ?thesis using h f a b c d e by simp
qed

text \<open>
  C1 as stated fails in \<^verbatim>\<open>WhiteboardApp\<close>: a quarter of a second after \<^verbatim>\<open>write_start\<close>
  was dispatched and a stroke was started, the classifier reports \<^verbatim>\<open>write_stop\<close> with
  probability 0.9; the name differs from the previously emitted one, yet nothing is
  dispatched: the last emitted gesture is still \<^verbatim>\<open>write_start\<close> and the stroke is still
  in progress.
\<close>

theorem C1_pose_switch_in_cooldown_suppressed:
  "last_gesture stroke_started = Some ''write_start''
   \<and> last_gesture_time stroke_started = 2
   \<and> classifier log_ext
        (frame_buffer (frame_step log_ext (hand_frame 1 0.9 0.5 0.5 2.25) stroke_started))
       = (1, 0.9)
   \<and> gesture_name_of (Some 1) = ''write_stop''
   \<and> last_gesture (frame_step log_ext (hand_frame 1 0.9 0.5 0.5 2.25) stroke_started)
       = Some ''write_start''
   \<and> drawing (frame_step log_ext (hand_frame 1 0.9 0.5 0.5 2.25) stroke_started)
   \<and> history (frame_step log_ext (hand_frame 1 0.9 0.5 0.5 2.25) stroke_started) = [[]]"
  by code_simp

text \<open>
  C2 (as amended). The history is a deque of at most 50 canvases that includes the current
  one, and \<^verbatim>\<open>undo\<close> needs more than one entry. Starting from the freshly initialised
  history, after exactly 60 committed mutations the history holds the last 50 committed
  canvases; \<^verbatim>\<open>undo\<close> has an effect exactly 49 times and is a no-op from then on. The blank
  seed and the first 10 commits are unrecoverable.
\<close>

theorem C2_history_bound:
  assumes "length cs = 60"
  shows "(\<forall>k\<le>49. history ((undo now ^^ k) (fold commit cs (app_init E t0)))
                    = take (50 - k) (drop 10 cs))
       \<and> (\<forall>k<49. (undo now ^^ Suc k) (fold commit cs (app_init E t0))
                    \<noteq> (undo now ^^ k) (fold commit cs (app_init E t0)))
       \<and> (\<forall>k\<ge>49. (undo now ^^ k) (fold commit cs (app_init E t0))
                    = (undo now ^^ 49) (fold commit cs (app_init E t0)))"
proof -
  define s where "s = fold commit cs (app_init E t0)"
  have h: "history s = drop 10 cs"
    using assms by (simp add: s_def history_after_commits)
  have len: "length (history s) = 50" using assms h by simp
  have hk: "history ((undo now ^^ k) s) = take (50 - k) (drop 10 cs)" if "k \<le> 49" for k
  proof -
    have "max 1 (50 - k) = 50 - k" using that by simp
    then show ?thesis using history_undo_pow [where now=now and k=k and s=s] len h assms by simp
  qed
  have neq: "(undo now ^^ Suc k) s \<noteq> (undo now ^^ k) s" if "k < 49" for k
  proof
    assume "(undo now ^^ Suc k) s = (undo now ^^ k) s"
    then have "history ((undo now ^^ Suc k) s) = history ((undo now ^^ k) s)" by simp
    then have "take (50 - Suc k) (drop 10 cs) = take (50 - k) (drop 10 cs)"
      using hk [of k] hk [of "Suc k"] that by simp
    then have "length (take (50 - Suc k) (drop 10 cs)) = length (take (50 - k) (drop 10 cs))"
      by simp
    then show False using assms that by simp
  qed
  have stay: "(undo now ^^ k) s = (undo now ^^ 49) s" if "k \<ge> 49" for k
    using that
  proof (induction k rule: dec_induct)
    case base
    then show ?case by simp
  next
    case (step n)
    have "length (history ((undo now ^^ 49) s)) \<le> 1"
      using hk [of 49] assms by simp
    then have "undo now ((undo now ^^ 49) s) = (undo now ^^ 49) s" by (rule undo_noop)
    then show ?case using step by simp
  qed
  show ?thesis using hk neq stay unfolding s_def by blast
qed

theorem C2_history_bound_witness:
  "length sixty_canvases = 60
   \<and> history ((undo 0 ^^ 49) (fold commit sixty_canvases (app_init log_ext 0)))
       = take (50 - 49) (drop 10 sixty_canvases)
   \<and> (undo 0 ^^ Suc 48) (fold commit sixty_canvases (app_init log_ext 0))
       \<noteq> (undo 0 ^^ 48) (fold commit sixty_canvases (app_init log_ext 0))
   \<and> (undo 0 ^^ 50) (fold commit sixty_canvases (app_init log_ext 0))
       = (undo 0 ^^ 49) (fold commit sixty_canvases (app_init log_ext 0))"
proof -
  have len: "length sixty_canvases = 60" by (simp add: sixty_canvases_def)
  note inst = C2_history_bound [OF len, of 0 log_ext 0]
  have a: "history ((undo 0 ^^ 49) (fold commit sixty_canvases (app_init log_ext 0)))
       = take (50 - 49) (drop 10 sixty_canvases)"
    by (rule inst [THEN conjunct1, rule_format]) simp
  have b: "(undo 0 ^^ Suc 48) (fold commit sixty_canvases (app_init log_ext 0))
       \<noteq> (undo 0 ^^ 48) (fold commit sixty_canvases (app_init log_ext 0))"
    by (rule inst [THEN conjunct2, THEN conjunct1, rule_format]) simp
  have c: "(undo 0 ^^ 50) (fold commit sixty_canvases (app_init log_ext 0))
       = (undo 0 ^^ 49) (fold commit sixty_canvases (app_init log_ext 0))"
    by (rule inst [THEN conjunct2, THEN conjunct2, rule_format]) simp
  show ?thesis using len a b c by blast
qed

text \<open>
  C2 as stated fails: after 60 commits the 50th \<^verbatim>\<open>undo\<close> is already a no-op.
\<close>

theorem C2_fiftieth_undo_is_noop:
  "undo 0 ((undo 0 ^^ 49) (fold commit sixty_canvases (app_init log_ext 0)))
     = (undo 0 ^^ 49) (fold commit sixty_canvases (app_init log_ext 0))"
proof (rule undo_noop)
  have "length (history (fold commit sixty_canvases (app_init log_ext 0))) = 50"
    by (simp add: history_after_commits sixty_canvases_def)
  then show "length (history ((undo 0 ^^ 49) (fold commit sixty_canvases (app_init log_ext 0)))) \<le> 1"
    by (simp add: history_undo_pow)
qed

text \<open>
  C3. Along every run of the main loop from start-up, every tensor on which the
  interpreter is invoked is a window of exactly 4 snapshots with exactly 21 points
  each. A snapshot whose point count is not 21 is rejected and leaves the whole state,
  the window buffer included, as it was. No interpreter call occurs in a frame after
  which the buffer holds fewer than 4 snapshots.
\<close>

theorem C3_classifier_windows:
  "(\<forall>w \<in> set (interpreter_calls (run E frames (app_init E t0))).
       length w = 4 \<and> (\<forall>snap \<in> set w. length snap = 21))
   \<and> (length landmarks \<noteq> 21 \<longrightarrow> recognise E now landmarks s = s)
   \<and> (length (frame_buffer (recognise E now landmarks s)) < 4 \<longrightarrow>
        interpreter_calls (recognise E now landmarks s) = interpreter_calls s)"
proof -
  have "windows_ok (run E frames (app_init E t0))"
    by (rule windows_ok_run) (rule windows_ok_init)
  then have a: "\<forall>w \<in> set (interpreter_calls (run E frames (app_init E t0))).
       length w = 4 \<and> (\<forall>snap \<in> set w. length snap = 21)"
    by (simp add: windows_ok_def sequence_length_def)
  have b: "length landmarks \<noteq> 21 \<longrightarrow> recognise E now landmarks s = s"
    by (simp add: recognise_rejects)
  have c: "length (frame_buffer (recognise E now landmarks s)) < 4 \<longrightarrow>
        interpreter_calls (recognise E now landmarks s) = interpreter_calls s"
    by (simp add: frame_buffer_recognise interpreter_calls_recognise sequence_length_def)
  show ?thesis using a b c by blast
qed

theorem C3_classifier_windows_witness:
  "[hand_at 0 0.9 0.1 0.1, hand_at 0 0.9 0.2 0.2, hand_at 0 0.9 0.3 0.3, hand_at 0 0.9 0.4 0.4]
     \<in> set (interpreter_calls (run log_ext four_frames (app_init log_ext 0)))
   \<and> length (hand_at 0 0.9 0.4 0.4) = 21
   \<and> length [(0, 0, 0) :: landmark] \<noteq> 21
   \<and> recognise log_ext 1 [(0, 0, 0)] (app_init log_ext 0) = app_init log_ext 0
   \<and> length (frame_buffer (recognise log_ext 1 (hand_at 0 0.9 0.1 0.1) (app_init log_ext 0))) < 4
   \<and> interpreter_calls (recognise log_ext 1 (hand_at 0 0.9 0.1 0.1) (app_init log_ext 0)) = []"
proof -
  define w where "w = [hand_at 0 0.9 0.1 0.1, hand_at 0 0.9 0.2 0.2, hand_at 0 0.9 0.3 0.3,
                       hand_at 0 0.9 0.4 0.4]"
  have m: "w \<in> set (interpreter_calls (run log_ext four_frames (app_init log_ext 0)))"
    by (simp add: calls_four_frames w_def)
  note r1 = C3_classifier_windows [where E = log_ext and frames = four_frames and ?t0.0 = 0 and now = 1
                      and landmarks = "[(0, 0, 0)]" and s = "app_init log_ext 0"]
  note r2 = C3_classifier_windows [where E = log_ext and frames = four_frames and ?t0.0 = 0 and now = 1
                      and landmarks = "hand_at 0 0.9 0.1 0.1" and s = "app_init log_ext 0"]
  have a: "\<forall>snap \<in> set w. length snap = 21"
    using r1 [THEN conjunct1] m by blast
  then have a': "length (hand_at 0 0.9 0.4 0.4) = 21" by (simp add: w_def)
  have b: "recognise log_ext 1 [(0, 0, 0)] (app_init log_ext 0) = app_init log_ext 0"
    using r1 [THEN conjunct2, THEN conjunct1] by simp
  have i: "frame_buffer (app_init log_ext 0) = []" "interpreter_calls (app_init log_ext 0) = []"
    by (simp_all add: app_init_def save_history_def)
  have c: "length (frame_buffer (recognise log_ext 1 (hand_at 0 0.9 0.1 0.1) (app_init log_ext 0))) < 4"
    by (simp add: frame_buffer_recognise length_hand_at i dq_append_def sequence_length_def)
  have d: "interpreter_calls (recognise log_ext 1 (hand_at 0 0.9 0.1 0.1) (app_init log_ext 0)) = []"
    using r2 [THEN conjunct2, THEN conjunct2] c i by simp
  show ?thesis using m a' b c d unfolding w_def by simp
qed

text \<open>
  C4 (as amended). The code has no tracking-loss counter and never clears the window
  buffer: frames without a tracked hand, however many, leave the buffer and the record
  of interpreter calls as they were, and the first snapshot accepted afterwards is
  appended to the snapshots buffered before the loss.
\<close>

theorem C4_loss_keeps_buffer:
  assumes "\<forall>f \<in> set fs. hand f = None"
  shows "frame_buffer (run E fs s) = frame_buffer s
       \<and> interpreter_calls (run E fs s) = interpreter_calls s
       \<and> (length landmarks = 21 \<longrightarrow>
            frame_buffer (recognise E now landmarks (run E fs s))
              = dq_append sequence_length landmarks (frame_buffer s))"
  using run_no_hand [OF assms, of E s] by (simp add: frame_buffer_recognise)

theorem C4_loss_keeps_buffer_witness:
  "hand (lost_frame 4) = None
   \<and> frame_buffer (run log_ext (replicate 100 (lost_frame 4)) (run log_ext four_frames (app_init log_ext 0)))
       = frame_buffer (run log_ext four_frames (app_init log_ext 0))
   \<and> length (hand_at 0 0.9 0.5 0.5) = 21
   \<and> frame_buffer (recognise log_ext 9 (hand_at 0 0.9 0.5 0.5)
         (run log_ext (replicate 100 (lost_frame 4)) (run log_ext four_frames (app_init log_ext 0))))
       = dq_append sequence_length (hand_at 0 0.9 0.5 0.5)
           (frame_buffer (run log_ext four_frames (app_init log_ext 0)))"
proof -
  have h: "\<forall>f \<in> set (replicate 100 (lost_frame 4)). hand f = None"
    by (simp add: lost_frame_def)
  show ?thesis
    using C4_loss_keeps_buffer [OF h, where E = log_ext and s = "run log_ext four_frames (app_init log_ext 0)"
                    and landmarks = "hand_at 0 0.9 0.5 0.5" and now = 9]
    by (simp add: length_hand_at lost_frame_def)
qed

text \<open>
  C4 as stated fails: after three buffered snapshots and one hundred consecutive frames
  without a hand, the next snapshot completes a window that the interpreter is invoked
  on; it holds three snapshots from before the loss and one from after it.
\<close>

theorem C4_window_spans_tracking_loss:
  "interpreter_calls (run log_ext loss_frames (app_init log_ext 0))
     = [[hand_at 0 0.9 0.1 0.1, hand_at 0 0.9 0.2 0.2, hand_at 0 0.9 0.3 0.3, hand_at 0 0.9 0.4 0.4]]"
proof -
  define s3 where "s3 = run log_ext [hand_frame 0 0.9 0.1 0.1 1, hand_frame 0 0.9 0.2 0.2 2,
                                     hand_frame 0 0.9 0.3 0.3 3] (app_init log_ext 0)"
  define s4 where "s4 = run log_ext (replicate 100 (lost_frame 4)) s3"
  have i: "frame_buffer (app_init log_ext 0) = []" "interpreter_calls (app_init log_ext 0) = []"
    by (simp_all add: app_init_def save_history_def)
  have k: "(255::nat) \<noteq> ord CHR ''q''" by (simp add: ord_def)
  have b3: "frame_buffer s3 = [hand_at 0 0.9 0.1 0.1, hand_at 0 0.9 0.2 0.2, hand_at 0 0.9 0.3 0.3]"
           "interpreter_calls s3 = []"
    using k
    by (simp_all add: s3_def hand_frame_def Let_def interpreter_calls_frame_step
          frame_buffer_frame_step interpreter_calls_recognise frame_buffer_recognise
          length_hand_at i dq_append_def sequence_length_def)
  have b4: "frame_buffer s4 = frame_buffer s3" "interpreter_calls s4 = interpreter_calls s3"
    using run_no_hand [of "replicate 100 (lost_frame 4)" log_ext s3]
    by (simp_all add: s4_def lost_frame_def)
  have k3: "\<forall>f \<in> set [hand_frame 0 0.9 0.1 0.1 1, hand_frame 0 0.9 0.2 0.2 2,
                          hand_frame 0 0.9 0.3 0.3 3]. key f \<noteq> ord CHR ''q''"
    using k by (simp add: hand_frame_def)
  have k4: "\<forall>f \<in> set (replicate 100 (lost_frame 4)). key f \<noteq> ord CHR ''q''"
    using k by (simp add: lost_frame_def)
  have split: "run log_ext loss_frames (app_init log_ext 0)
                 = run log_ext [hand_frame 0 0.9 0.4 0.4 5] s4"
    unfolding loss_frames_def s4_def s3_def
    by (simp only: run_append [OF k3] run_append [OF k4])
  show ?thesis
    unfolding split using k
    by (simp add: hand_frame_def Let_def interpreter_calls_frame_step
          frame_buffer_frame_step interpreter_calls_recognise frame_buffer_recognise
          length_hand_at b3 b4 dq_append_def sequence_length_def)
qed

text \<open>
  C5 (as amended). When \<^verbatim>\<open>undo\<close> is applicable (at least two entries in the undo
  sequence), \<^verbatim>\<open>undo\<close> followed by \<^verbatim>\<open>redo\<close> makes the canvas a copy of the top history
  entry as it was before the undo; this is the canvas before the undo whenever that
  canvas had been committed (it equals the top entry), and the undo sequence is restored.
  \<^verbatim>\<open>redo\<close> is a no-op whenever the redo sequence is empty.
\<close>

theorem C5_undo_redo:
  "(2 \<le> length (history s) \<longrightarrow>
      canvas (redo n2 (undo n1 s)) = last (history s)
      \<and> (canvas s = last (history s) \<longrightarrow> canvas (redo n2 (undo n1 s)) = canvas s)
      \<and> (length (history s) \<le> history_maxlen \<longrightarrow> history (redo n2 (undo n1 s)) = history s))
   \<and> (redo_stack s = [] \<longrightarrow> redo n2 s = s)"
proof -
  have noop: "redo n2 s = s" if "redo_stack s = []"
    using that by (simp add: redo_def)
  have restore: "canvas (redo n2 (undo n1 s)) = last (history s)" if "2 \<le> length (history s)"
    using that
    by (simp add: canvas_redo redo_stack_undo dq_append_neq_Nil last_dq_append history_maxlen_pos)
  have hist: "history (redo n2 (undo n1 s)) = history s"
    if "2 \<le> length (history s)" "length (history s) \<le> history_maxlen"
  proof -
    have ne: "history s \<noteq> []" using that by auto
    have "length (butlast (history s)) < history_maxlen" using that by simp
    then have "dq_append history_maxlen (last (history s)) (butlast (history s))
                 = butlast (history s) @ [last (history s)]"
      by (rule dq_append_short)
    then show ?thesis
      using that ne
      by (simp add: history_redo redo_stack_undo history_undo dq_append_neq_Nil last_dq_append
            history_maxlen_pos)
  qed
  show ?thesis using noop restore hist by simp
qed

theorem C5_undo_redo_witness:
  "2 \<le> length (history (commit [Line (0, 0) (5, 5) (0, 0, 255) 5] (app_init log_ext 0)))
   \<and> canvas (redo 0 (undo 0 (commit [Line (0, 0) (5, 5) (0, 0, 255) 5] (app_init log_ext 0))))
       = [Line (0, 0) (5, 5) (0, 0, 255) 5]
   \<and> history (redo 0 (undo 0 (commit [Line (0, 0) (5, 5) (0, 0, 255) 5] (app_init log_ext 0))))
       = [[], [Line (0, 0) (5, 5) (0, 0, 255) 5]]
   \<and> redo_stack (app_init log_ext 0) = []
   \<and> redo 0 (app_init log_ext 0) = app_init log_ext 0"
proof -
  define s where "s = commit [Line (0, 0) (5, 5) (0, 0, 255) 5] (app_init log_ext 0)"
  have h: "history s = [[], [Line (0, 0) (5, 5) (0, 0, 255) 5]]"
    by (simp add: s_def commit_def app_init_def save_history_def dq_append_def history_maxlen_def
          log_ext_def)
  have c: "canvas s = [Line (0, 0) (5, 5) (0, 0, 255) 5]"
    by (simp add: s_def commit_def app_init_def save_history_def)
  have r: "redo_stack (app_init log_ext 0) = []"
    by (simp add: app_init_def save_history_def)
  show ?thesis
    using C5_undo_redo [of s 0 0] C5_undo_redo [of "app_init log_ext 0" 0 0] h c r
    unfolding s_def [symmetric] by (simp add: history_maxlen_def)
qed

text \<open>
  C5 as stated fails after a session that ends with an uncommitted erasing stroke:
  \<^verbatim>\<open>undo\<close> then \<^verbatim>\<open>redo\<close> (called directly, or dispatched from two further frames
  classified as \<^verbatim>\<open>undo\<close> and \<^verbatim>\<open>redo\<close>) brings back the last committed canvas, without
  the erasure.
\<close>

theorem C5_uncommitted_erasure_lost:
  "2 \<le> length (history erased_state)
   \<and> canvas erased_state
       = [Line (600, 400) (600, 400) (0, 0, 255) 5, Line (600, 400) (750, 400) (0, 0, 255) 5,
          Line (750, 400) (750, 400) (255, 255, 255) 25, Line (750, 400) (600, 400) (255, 255, 255) 25]
   \<and> canvas (redo 14 (undo 12 erased_state))
       = [Line (600, 400) (600, 400) (0, 0, 255) 5, Line (600, 400) (750, 400) (0, 0, 255) 5]
   \<and> canvas (run log_ext [hand_frame 6 0.9 0.5 0.5 12, hand_frame 7 0.9 0.5 0.5 14] erased_state)
       \<noteq> canvas erased_state"
  by code_simp

text \<open>
  C6 (as amended). In \<^verbatim>\<open>WhiteboardApp\<close>, \<^verbatim>\<open>clear_canvas\<close> on a state whose history is
  not empty resets the canvas to blank, appends exactly one entry (the blank canvas) to
  the history deque (the count grows by one below the capacity of 50; at capacity the
  oldest entry is evicted) and clears the redo sequence. A single subsequent \<^verbatim>\<open>undo\<close>
  makes the canvas a copy of the top history entry as it was before the clear, which is
  the canvas before the clear whenever that canvas had been committed. In
  \<^verbatim>\<open>GestureWhiteboard\<close>, \<^verbatim>\<open>clear_all\<close> resets the canvas to blank and leaves the history
  and its cursor as they were.
\<close>

theorem C6_clear_all:
  assumes "history s \<noteq> []"
  shows "canvas (clear_canvas E now s) = blank_canvas E
       \<and> history (clear_canvas E now s) = dq_append history_maxlen (blank_canvas E) (history s)
       \<and> (length (history s) < history_maxlen \<longrightarrow>
            length (history (clear_canvas E now s)) = length (history s) + 1)
       \<and> redo_stack (clear_canvas E now s) = []
       \<and> canvas (undo now' (clear_canvas E now s)) = last (history s)
       \<and> (canvas s = last (history s) \<longrightarrow> canvas (undo now' (clear_canvas E now s)) = canvas s)
       \<and> gw_canvas (gw_handle_gesture E now ''clear_all'' g) = blank_canvas E
       \<and> gw_history (gw_handle_gesture E now ''clear_all'' g) = gw_history g
       \<and> history_index (gw_handle_gesture E now ''clear_all'' g) = history_index g"
proof -
  have g: "gw_handle_gesture E now ''clear_all'' g = g\<lparr>gw_canvas := blank_canvas E\<rparr>"
    by (simp add: gw_handle_gesture_def)
  have c: "canvas (clear_canvas E now s) = blank_canvas E"
    by (simp add: clear_canvas_def status_def save_history_def)
  have h: "history (clear_canvas E now s) = dq_append history_maxlen (blank_canvas E) (history s)"
    by (simp add: clear_canvas_def status_def save_history_def)
  have r: "redo_stack (clear_canvas E now s) = []"
    by (simp add: clear_canvas_def status_def save_history_def)
  have len: "1 < length (history (clear_canvas E now s))"
    using assms by (cases "history s") (simp_all add: h length_dq_append history_maxlen_def)
  have u: "canvas (undo now' (clear_canvas E now s)) = last (history s)"
    using len assms by (simp add: canvas_undo h last_butlast_dq_append history_maxlen_def)
  show ?thesis using c h r u by (simp add: dq_append_short g)
qed

theorem C6_clear_all_witness:
  "history (commit [Line (0, 0) (5, 5) (0, 0, 255) 5] (app_init log_ext 0)) \<noteq> []
   \<and> canvas (clear_canvas log_ext 0 (commit [Line (0, 0) (5, 5) (0, 0, 255) 5] (app_init log_ext 0))) = []
   \<and> history (clear_canvas log_ext 0 (commit [Line (0, 0) (5, 5) (0, 0, 255) 5] (app_init log_ext 0)))
       = [[], [Line (0, 0) (5, 5) (0, 0, 255) 5], []]
   \<and> canvas (undo 0 (clear_canvas log_ext 0 (commit [Line (0, 0) (5, 5) (0, 0, 255) 5] (app_init log_ext 0))))
       = [Line (0, 0) (5, 5) (0, 0, 255) 5]"
proof -
  define s where "s = commit [Line (0, 0) (5, 5) (0, 0, 255) 5] (app_init log_ext 0)"
  have h: "history s = [[], [Line (0, 0) (5, 5) (0, 0, 255) 5]]"
    by (simp add: s_def commit_def app_init_def save_history_def dq_append_def history_maxlen_def
          log_ext_def)
  then have ne: "history s \<noteq> []" by simp
  have b: "blank_canvas log_ext = []" by (simp add: log_ext_def)
  show ?thesis
    using C6_clear_all [OF ne, of log_ext 0 0 "gw_init log_ext"] h b
    unfolding s_def [symmetric] by (simp add: dq_append_def history_maxlen_def)
qed

text \<open>
  C6 as stated fails on a canvas with an uncommitted erasing stroke: the \<^verbatim>\<open>undo\<close> after
  \<^verbatim>\<open>clear_canvas\<close> (called directly, or dispatched from two further frames classified as
  \<^verbatim>\<open>clear_all\<close> and \<^verbatim>\<open>undo\<close>) brings back the last committed canvas, not the canvas
  that was cleared.
\<close>

theorem C6_undo_after_clear_loses_erasure:
  "history erased_state \<noteq> []
   \<and> canvas erased_state
       = [Line (600, 400) (600, 400) (0, 0, 255) 5, Line (600, 400) (750, 400) (0, 0, 255) 5,
          Line (750, 400) (750, 400) (255, 255, 255) 25, Line (750, 400) (600, 400) (255, 255, 255) 25]
   \<and> canvas (undo 14 (clear_canvas log_ext 12 erased_state))
       = [Line (600, 400) (600, 400) (0, 0, 255) 5, Line (600, 400) (750, 400) (0, 0, 255) 5]
   \<and> canvas (run log_ext [hand_frame 11 0.9 0.5 0.5 12, hand_frame 6 0.9 0.5 0.5 14] erased_state)
       \<noteq> canvas erased_state"
  by code_simp

text \<open>
  C7. In shape preview with the anchor set (\<open>drawing\<close>, \<open>shape_drawing\<close> and a start point),
  any number of preview renders (\<^verbatim>\<open>draw_shape\<close> at the pointer positions \<open>pts\<close>) leaves
  the committed canvas, the history and the anchor as they were; the \<^verbatim>\<open>write_stop\<close> that
  ends the preview makes the last preview the canvas and appends exactly that one
  canvas to the history.
\<close>

theorem C7_shape_preview:
  assumes "drawing s" and "shape_drawing s" and "shape_start_point s \<noteq> None"
  shows "canvas (fold (\<lambda>(x, y). draw_shape E x y) pts s) = canvas s
       \<and> history (fold (\<lambda>(x, y). draw_shape E x y) pts s) = history s
       \<and> shape_start_point (fold (\<lambda>(x, y). draw_shape E x y) pts s) = shape_start_point s
       \<and> canvas (dispatch E now ''write_stop'' (fold (\<lambda>(x, y). draw_shape E x y) pts s))
           = temp_canvas (fold (\<lambda>(x, y). draw_shape E x y) pts s)
       \<and> history (dispatch E now ''write_stop'' (fold (\<lambda>(x, y). draw_shape E x y) pts s))
           = dq_append history_maxlen (temp_canvas (fold (\<lambda>(x, y). draw_shape E x y) pts s))
               (history s)
       \<and> (length (history s) < history_maxlen \<longrightarrow>
            length (history (dispatch E now ''write_stop'' (fold (\<lambda>(x, y). draw_shape E x y) pts s)))
              = length (history s) + 1)
       \<and> \<not> drawing (dispatch E now ''write_stop'' (fold (\<lambda>(x, y). draw_shape E x y) pts s))
       \<and> shape_start_point (dispatch E now ''write_stop'' (fold (\<lambda>(x, y). draw_shape E x y) pts s))
           = None"
proof -
  define t where "t = temp_canvas (fold (\<lambda>(x, y). draw_shape E x y) pts s)"
  have t: "fold (\<lambda>(x, y). draw_shape E x y) pts s = s\<lparr>temp_canvas := t\<rparr>"
    unfolding t_def by (rule fold_draw_shape_temp_only)
  show ?thesis
    unfolding t using assms
    by (simp add: dispatch_def status_def end_drawing_def save_history_def Let_def dq_append_short)
qed

theorem C7_shape_preview_witness:
  "drawing preview_state \<and> shape_drawing preview_state \<and> shape_start_point preview_state \<noteq> None
   \<and> canvas (fold (\<lambda>(x, y). draw_shape log_ext x y) [(150, 150), (200, 150)] preview_state) = []
   \<and> history (dispatch log_ext 1 ''write_stop''
        (fold (\<lambda>(x, y). draw_shape log_ext x y) [(150, 150), (200, 150)] preview_state))
       = [[], [Rectangle (100, 100) (200, 150) (0, 0, 255) 5]]"
proof -
  have p: "drawing preview_state" "shape_drawing preview_state"
          "shape_start_point preview_state \<noteq> None"
    by (simp_all add: preview_state_def start_drawing_def dispatch_def status_def Let_def)
  have c: "canvas preview_state = []" "history preview_state = [[]]"
    by (simp_all add: preview_state_def start_drawing_def dispatch_def status_def Let_def
          app_init_def save_history_def dq_append_def history_maxlen_def log_ext_def)
  have t: "temp_canvas (fold (\<lambda>(x, y). draw_shape log_ext x y) [(150, 150), (200, 150)] preview_state)
             = [Rectangle (100, 100) (200, 150) (0, 0, 255) 5]"
    by (simp add: preview_state_def start_drawing_def dispatch_def status_def Let_def
          app_init_def save_history_def draw_shape_def log_ext_def line_thickness_def)
  show ?thesis
    using C7_shape_preview [OF p, of log_ext "[(150, 150), (200, 150)]" 1] p c t
    by (simp add: dq_append_def history_maxlen_def)
qed

text \<open>
  C8. The offsets are clamped by \<^verbatim>\<open>pan\<close> only (lemma \<open>pan_offsets_clamped\<close>);
  \<^verbatim>\<open>zoom\<close> changes the zoom factor and leaves the offsets alone. After zooming in to
  1.2, panning to the offsets \<open>(-150, -100)\<close> and zooming out to 1.0, both offsets lie
  below the lower bound \<open>-(size) * (zoom_factor - 1) = 0\<close>.
\<close>

theorem C8_zoom_out_breaks_clamp:
  "zoom_factor (run log_ext (butlast zoom_pan_zoom) (app_init log_ext 0)) = 6 / 5
   \<and> offset_x (run log_ext (butlast zoom_pan_zoom) (app_init log_ext 0)) = - 150
   \<and> offset_y (run log_ext (butlast zoom_pan_zoom) (app_init log_ext 0)) = - 100
   \<and> zoom_factor (run log_ext zoom_pan_zoom (app_init log_ext 0)) = 1
   \<and> offset_x (run log_ext zoom_pan_zoom (app_init log_ext 0)) = - 150
   \<and> offset_y (run log_ext zoom_pan_zoom (app_init log_ext 0)) = - 100
   \<and> \<not> (- of_int canvas_width * (zoom_factor (run log_ext zoom_pan_zoom (app_init log_ext 0)) - 1)
          \<le> offset_x (run log_ext zoom_pan_zoom (app_init log_ext 0)))
   \<and> \<not> (- of_int canvas_height * (zoom_factor (run log_ext zoom_pan_zoom (app_init log_ext 0)) - 1)
          \<le> offset_y (run log_ext zoom_pan_zoom (app_init log_ext 0)))"
  by code_simp

text \<open>
  C9 (as amended). In every state reachable from start-up a shape anchor is set only
  while a stroke is in progress in shape mode, so each frame extends either the shape
  preview or the freehand stroke, never both. Panning is independent of the two: a
  \<^verbatim>\<open>pan\<close> command dispatched while a stroke is active does not end or commit the stroke;
  the stroke stays active, canvas and history are as they were, and panning begins.
\<close>

theorem C9_pan_keeps_stroke:
  "(shape_start_point (run E frames (app_init E t0)) \<noteq> None \<longrightarrow>
      drawing (run E frames (app_init E t0)) \<and> shape_drawing (run E frames (app_init E t0)))
   \<and> (drawing s \<and> gesture_cooldown \<le> now - last_gesture_time s \<and> last_gesture s \<noteq> Some ''pan'' \<longrightarrow>
        last_gesture (handle_gesture E now (Some 10) s) = Some ''pan''
        \<and> drawing (pan_stage now (Some (x, y)) (handle_gesture E now (Some 10) s))
        \<and> pan_mode (pan_stage now (Some (x, y)) (handle_gesture E now (Some 10) s))
        \<and> canvas (pan_stage now (Some (x, y)) (handle_gesture E now (Some 10) s)) = canvas s
        \<and> history (pan_stage now (Some (x, y)) (handle_gesture E now (Some 10) s)) = history s)"
proof -
  have "anchor_ok (run E frames (app_init E t0))"
    by (rule anchor_ok_run) (rule anchor_ok_init)
  then have a: "shape_start_point (run E frames (app_init E t0)) \<noteq> None \<longrightarrow>
      drawing (run E frames (app_init E t0)) \<and> shape_drawing (run E frames (app_init E t0))"
    by (simp add: anchor_ok_def)
  have b: "last_gesture (handle_gesture E now (Some 10) s) = Some ''pan''
        \<and> drawing (pan_stage now (Some (x, y)) (handle_gesture E now (Some 10) s))
        \<and> pan_mode (pan_stage now (Some (x, y)) (handle_gesture E now (Some 10) s))
        \<and> canvas (pan_stage now (Some (x, y)) (handle_gesture E now (Some 10) s)) = canvas s
        \<and> history (pan_stage now (Some (x, y)) (handle_gesture E now (Some 10) s)) = history s"
    if "drawing s" "gesture_cooldown \<le> now - last_gesture_time s" "last_gesture s \<noteq> Some ''pan''"
  proof -
    have h: "handle_gesture E now (Some 10) s
               = status ''Pan mode - move hand to pan'' now
                   (s\<lparr>last_gesture := Some ''pan'', last_gesture_time := now\<rparr>)"
      using that by (simp add: handle_gesture_def gesture_names dispatch_def Let_def not_less)
    show ?thesis
      unfolding h using that
      by (simp add: pan_stage_def status_def pan_def start_pan_def Let_def)
  qed
  show ?thesis using a b by blast
qed

theorem C9_pan_keeps_stroke_witness:
  "drawing stroke_started
   \<and> gesture_cooldown \<le> 4 - last_gesture_time stroke_started
   \<and> last_gesture stroke_started \<noteq> Some ''pan''
   \<and> drawing (pan_stage 4 (Some (750, 400)) (handle_gesture log_ext 4 (Some 10) stroke_started))
   \<and> pan_mode (pan_stage 4 (Some (750, 400)) (handle_gesture log_ext 4 (Some 10) stroke_started))
   \<and> history (pan_stage 4 (Some (750, 400)) (handle_gesture log_ext 4 (Some 10) stroke_started)) = [[]]"
proof -
  have p: "drawing stroke_started \<and> gesture_cooldown \<le> 4 - last_gesture_time stroke_started
           \<and> last_gesture stroke_started \<noteq> Some ''pan''"
    by (simp add: stroke_started_fields gesture_cooldown_def)
  show ?thesis
    using p C9_pan_keeps_stroke [where E = log_ext and frames = "[]" and ?t0.0 = 0 and s = stroke_started
                      and now = 4 and x = 750 and y = 400]
    by (simp add: stroke_started_fields)
qed

text \<open>
  C9 as stated fails: after a stroke was started and \<^verbatim>\<open>pan\<close> was recognised, the stroke
  is still active (and was extended in the same frame), panning is active too, and the
  stroke was not committed: the history still holds the blank canvas only.
\<close>

theorem C9_stroke_and_pan_together:
  "drawing (run log_ext stroke_then_pan (app_init log_ext 0))
   \<and> shape_start_point (run log_ext stroke_then_pan (app_init log_ext 0)) = None
   \<and> pan_mode (run log_ext stroke_then_pan (app_init log_ext 0))
   \<and> history (run log_ext stroke_then_pan (app_init log_ext 0)) = [[]]
   \<and> canvas (run log_ext stroke_then_pan (app_init log_ext 0))
       = [Line (600, 400) (600, 400) (0, 0, 255) 5, Line (600, 400) (750, 400) (0, 0, 255) 5]"
  by code_simp

text \<open>
  C10 (as amended). When the debouncer suppresses a classification, the debounce stage
  mutates nothing: \<^verbatim>\<open>WhiteboardApp.handle_gesture\<close> (during the cooldown, or when the
  name repeats the last emitted one) and the cooldown test of \<^verbatim>\<open>GestureWhiteboard.run\<close>
  (when the name repeats the last emitted one within the cooldown) return the whole
  state as it was, so the decision on the next classification is taken against the
  last emitted gesture, not the last observed one. Whenever the recognition stage of a
  frame of \<^verbatim>\<open>WhiteboardApp.run\<close> does not dispatch (snapshot rejected, window not full,
  probability not above 0.7, or suppressed by the debouncer), it changes nothing but
  the landmark buffer and the record of interpreter calls. The pointer-driven drawing
  and panning later in the same loop iteration are outside this stage and are not
  covered.
\<close>

theorem C10_suppressed_frame:
  "(now - last_gesture_time s < gesture_cooldown \<or> Some (gesture_name_of gid) = last_gesture s
      \<longrightarrow> handle_gesture E now gid s = s
          \<and> handle_gesture E now' gid' (handle_gesture E now gid s) = handle_gesture E now' gid' s)
   \<and> (Some name = gw_last_gesture g \<and> now - gw_last_gesture_time g \<le> gw_gesture_cooldown
      \<longrightarrow> gw_debounce E now name g = g
          \<and> gw_debounce E now' name' (gw_debounce E now name g) = gw_debounce E now' name' g)
   \<and> (\<not> (length landmarks = 21
            \<and> length (dq_append sequence_length landmarks (frame_buffer s)) = sequence_length
            \<and> snd (classifier E (dq_append sequence_length landmarks (frame_buffer s))) > 0.7
            \<and> gesture_cooldown \<le> now - last_gesture_time s
            \<and> Some (gesture_name_of
                   (Some (fst (classifier E (dq_append sequence_length landmarks (frame_buffer s))))))
                \<noteq> last_gesture s)
      \<longrightarrow> recognise E now landmarks s
            = s\<lparr>frame_buffer := frame_buffer (recognise E now landmarks s),
                interpreter_calls := interpreter_calls (recognise E now landmarks s)\<rparr>)"
proof -
  have a: "now - last_gesture_time s < gesture_cooldown \<or> Some (gesture_name_of gid) = last_gesture s
      \<longrightarrow> handle_gesture E now gid s = s
          \<and> handle_gesture E now' gid' (handle_gesture E now gid s) = handle_gesture E now' gid' s"
    by (auto simp add: handle_gesture_def Let_def)
  have b: "Some name = gw_last_gesture g \<and> now - gw_last_gesture_time g \<le> gw_gesture_cooldown
      \<longrightarrow> gw_debounce E now name g = g
          \<and> gw_debounce E now' name' (gw_debounce E now name g) = gw_debounce E now' name' g"
    by (auto simp add: gw_debounce_def Let_def)
  show ?thesis
    using a b recognise_not_dispatched [of landmarks s E now] by blast
qed

theorem C10_suppressed_frame_witness:
  "2.25 - last_gesture_time stroke_started < gesture_cooldown
   \<and> handle_gesture log_ext 2.25 (Some 1) stroke_started = stroke_started
   \<and> last_gesture (handle_gesture log_ext 2.25 (Some 1) stroke_started) = Some ''write_start''
   \<and> Some ''write_start'' = gw_last_gesture gw_started
   \<and> 2.25 - gw_last_gesture_time gw_started \<le> gw_gesture_cooldown
   \<and> gw_debounce log_ext 2.25 ''write_start'' gw_started = gw_started
   \<and> canvas (recognise log_ext 2.25 (hand_at 1 0.9 0.5 0.5) stroke_started) = canvas stroke_started
   \<and> history (recognise log_ext 2.25 (hand_at 1 0.9 0.5 0.5) stroke_started) = history stroke_started"
proof -
  have f: "gw_last_gesture gw_started = Some ''write_start''"
          "gw_last_gesture_time gw_started = 2"
          "last_gesture stroke_started = Some ''write_start''"
          "last_gesture_time stroke_started = 2"
    by code_simp+
  have a: "2.25 - last_gesture_time stroke_started < gesture_cooldown"
    by (simp add: f gesture_cooldown_def)
  have b: "Some ''write_start'' = gw_last_gesture gw_started
           \<and> 2.25 - gw_last_gesture_time gw_started \<le> gw_gesture_cooldown"
    by (simp add: f gw_gesture_cooldown_def)
  note inst = C10_suppressed_frame
    [where now = "2.25" and s = stroke_started and gid = "Some 1" and E = log_ext
       and now' = "2.25" and gid' = "Some 1" and name = "''write_start''" and g = gw_started
       and name' = "''write_start''" and landmarks = "hand_at 1 0.9 0.5 0.5"]
  have c: "handle_gesture log_ext 2.25 (Some 1) stroke_started = stroke_started"
    using a inst [THEN conjunct1] by blast
  have d: "gw_debounce log_ext 2.25 ''write_start'' gw_started = gw_started"
    using b inst [THEN conjunct2, THEN conjunct1] by blast
  have e: "recognise log_ext 2.25 (hand_at 1 0.9 0.5 0.5) stroke_started
             = stroke_started\<lparr>frame_buffer := frame_buffer (recognise log_ext 2.25 (hand_at 1 0.9 0.5 0.5) stroke_started),
                 interpreter_calls := interpreter_calls (recognise log_ext 2.25 (hand_at 1 0.9 0.5 0.5) stroke_started)\<rparr>"
    using a inst [THEN conjunct2, THEN conjunct2] by (simp add: not_le)
  have e1: "canvas (recognise log_ext 2.25 (hand_at 1 0.9 0.5 0.5) stroke_started) = canvas stroke_started"
    by (subst e) simp
  have e2: "history (recognise log_ext 2.25 (hand_at 1 0.9 0.5 0.5) stroke_started) = history stroke_started"
    by (subst e) simp
  show ?thesis using a b c d e1 e2 by (simp add: f)
qed

text \<open>
  C10 as stated fails for the loop iteration as a whole. A quarter of a second after
  \<^verbatim>\<open>write_start\<close> was dispatched, a frame classified as \<^verbatim>\<open>write_stop\<close> with probability
  0.9 is suppressed (the last emitted name and time stay as they were), yet the same
  iteration extends the stroke on the canvas to the new fingertip position. Likewise,
  while panning at zoom 1.2, a frame whose classification repeats \<^verbatim>\<open>pan\<close> is not
  dispatched, yet the same iteration moves the offsets from \<open>(0, 0)\<close> to
  \<open>(-150, -100)\<close>.
\<close>

theorem C10_suppressed_frame_still_draws_and_pans:
  "last_gesture stroke_started = Some ''write_start''
   \<and> last_gesture_time stroke_started = 2
   \<and> classifier log_ext
        (frame_buffer (frame_step log_ext (hand_frame 1 0.9 0.625 0.5 2.25) stroke_started))
       = (1, 0.9)
   \<and> interpreter_calls (frame_step log_ext (hand_frame 1 0.9 0.625 0.5 2.25) stroke_started)
       = interpreter_calls stroke_started
           @ [frame_buffer (frame_step log_ext (hand_frame 1 0.9 0.625 0.5 2.25) stroke_started)]
   \<and> last_gesture (frame_step log_ext (hand_frame 1 0.9 0.625 0.5 2.25) stroke_started)
       = Some ''write_start''
   \<and> last_gesture_time (frame_step log_ext (hand_frame 1 0.9 0.625 0.5 2.25) stroke_started) = 2
   \<and> canvas stroke_started = [Line (600, 400) (600, 400) (0, 0, 255) 5]
   \<and> canvas (frame_step log_ext (hand_frame 1 0.9 0.625 0.5 2.25) stroke_started)
       = [Line (600, 400) (600, 400) (0, 0, 255) 5, Line (600, 400) (750, 400) (0, 0, 255) 5]
   \<and> canvas (frame_step log_ext (hand_frame 1 0.9 0.625 0.5 2.25) stroke_started)
       \<noteq> canvas stroke_started
   \<and> last_gesture (run log_ext (take 5 zoom_pan_zoom) (app_init log_ext 0)) = Some ''pan''
   \<and> last_gesture_time (run log_ext (take 5 zoom_pan_zoom) (app_init log_ext 0)) = 2
   \<and> offset_x (run log_ext (take 5 zoom_pan_zoom) (app_init log_ext 0)) = 0
   \<and> offset_y (run log_ext (take 5 zoom_pan_zoom) (app_init log_ext 0)) = 0
   \<and> classifier log_ext
        (frame_buffer (frame_step log_ext (hand_frame 10 0.9 0.4375 0.4375 3)
           (run log_ext (take 5 zoom_pan_zoom) (app_init log_ext 0))))
       = (10, 0.9)
   \<and> last_gesture_time (frame_step log_ext (hand_frame 10 0.9 0.4375 0.4375 3)
         (run log_ext (take 5 zoom_pan_zoom) (app_init log_ext 0))) = 2
   \<and> offset_x (frame_step log_ext (hand_frame 10 0.9 0.4375 0.4375 3)
         (run log_ext (take 5 zoom_pan_zoom) (app_init log_ext 0))) = - 150
   \<and> offset_y (frame_step log_ext (hand_frame 10 0.9 0.4375 0.4375 3)
         (run log_ext (take 5 zoom_pan_zoom) (app_init log_ext 0))) = - 100"
  by code_simp

end
